theory Spec2Isabelle
  imports Main "HOL-Library.Char_ord" "HOL-Library.List_Lexorder"
begin

section \<open>Strings as JavaScript uses them\<close>

text \<open>
  File names are modelled as \<open>string\<close>. \<open>String.prototype.toLowerCase\<close> is modelled on
  the ASCII letters, the only characters that can lower-case to a character of
  \<open>.ppt\<close>, \<open>.pptx\<close>, \<open>.pdf\<close>, \<open>.png\<close> or \<open>.zip\<close>.
\<close>

definition toLowerChar :: "char \<Rightarrow> char" where
  "toLowerChar c =
     (let n = (of_char c :: nat) in if 65 \<le> n \<and> n \<le> 90 then char_of (n + 32) else c)"

definition toLowerCase :: "string \<Rightarrow> string" where
  "toLowerCase s = map toLowerChar s"

definition toUpperChar :: "char \<Rightarrow> char" where
  "toUpperChar c =
     (let n = (of_char c :: nat) in if 97 \<le> n \<and> n \<le> 122 then char_of (n - 32) else c)"

definition toUpperCase :: "string \<Rightarrow> string" where
  "toUpperCase s = map toUpperChar s"

text \<open>\<open>s.endsWith(suf)\<close>.\<close>

definition endsWith :: "string \<Rightarrow> string \<Rightarrow> bool" where
  "endsWith s suf = (length suf \<le> length s \<and> drop (length s - length suf) s = suf)"

text \<open>\<open>s.split('.').pop()\<close>: the text after the last dot, the whole string when it has none.\<close>

definition split_dot_pop :: "string \<Rightarrow> string" where
  "split_dot_pop s = rev (takeWhile (\<lambda>c. c \<noteq> CHR ''.'') (rev s))"

text \<open>Decimal rendering of a number inside a template literal.\<close>

fun string_of_nat :: "nat \<Rightarrow> string" where
  "string_of_nat n =
     (if n < 10 then [char_of (48 + n)]
      else string_of_nat (n div 10) @ [char_of (48 + n mod 10)])"

declare string_of_nat.simps [simp del]

section \<open>The client file list (public/script.js)\<close>

text \<open>
  The source holds two versions of \<open>script.js\<close>. The first has \<open>addFiles\<close>, used by
  its \<open>drop\<close> and \<open>change\<close> listeners; the listeners of the second push the files
  themselves. Both are modelled: the names of the second end in \<open>2\<close>.
\<close>

text \<open>
  A browser \<open>File\<close>: the three properties the script compares, and the bytes, which it
  never compares. Two different files can agree on all three properties.
\<close>

record jsfile =
  fname :: string
  fsize :: nat
  lastModified :: int
  bytes :: string

text \<open>One rendered tile of the preview grid: the file name and the placeholder's label.\<close>

record tile =
  tile_name :: string
  tile_label :: string

text \<open>
  The page state the script reads and writes: \<open>currentFiles\<close>, the hidden input's
  \<open>files\<close>, the rendered list, the status line, the reset button, the drop area, the
  result area, and the preview requests the rendering has sent. \<open>hasDataTransfer\<close> says
  whether \<open>new DataTransfer()\<close> works in this browser.
\<close>

record client =
  currentFiles :: "jsfile list"
  inputFiles :: "jsfile list"
  fileListEl :: "tile list"
  statusText :: string
  resetHidden :: bool
  dropCompact :: bool
  dropDrag :: bool
  resultEl :: string
  previewRequests :: "jsfile list"
  hasDataTransfer :: bool

definition getExt :: "string \<Rightarrow> string" where
  "getExt nm = toLowerCase (split_dot_pop nm)"

text \<open>\<open>makePlaceholder\<close>, by the label it draws (the SVG around it is constant).\<close>

definition makePlaceholder :: "string \<Rightarrow> string" where
  "makePlaceholder ext = toUpperCase (if ext = [] then ''ppt'' else ext)"

definition createFileList :: "client \<Rightarrow> jsfile list \<Rightarrow> jsfile list" where
  "createFileList c files = (if hasDataTransfer c then files else inputFiles c)"

definition setDropCompact :: "client \<Rightarrow> client" where
  "setDropCompact c = c\<lparr>dropCompact := True\<rparr>"

definition restoreDropDefault :: "client \<Rightarrow> client" where
  "restoreDropDefault c = c\<lparr>dropCompact := False\<rparr>"

definition make_tile :: "jsfile \<Rightarrow> tile" where
  "make_tile f = \<lparr>tile_name = fname f, tile_label = makePlaceholder (getExt (fname f))\<rparr>"

text \<open>\<open>renderFileList\<close> of the first script: every tile also asks the server for a preview.\<close>

definition renderFileList :: "client \<Rightarrow> client" where
  "renderFileList c =
     (if currentFiles c = []
      then restoreDropDefault (c\<lparr>fileListEl := [], statusText := ''Ready'', resetHidden := True\<rparr>)
      else setDropCompact
             (c\<lparr>fileListEl := map make_tile (currentFiles c),
                previewRequests := previewRequests c @ currentFiles c,
                statusText := string_of_nat (length (currentFiles c)) @ '' file(s) selected'',
                resetHidden := False\<rparr>))"

text \<open>
  \<open>renderFileList\<close> of the second script: the status line names a single file. The
  second script defines neither \<open>restoreDropDefault\<close> nor \<open>setDropCompact\<close>, so the call
  that ends either branch throws a \<open>ReferenceError\<close>: the function always returns the
  error, with the page as it is at the throw, the drop area untouched.
\<close>

datatype js_error = ReferenceError string

definition renderFileList2 :: "client \<Rightarrow> js_error \<times> client" where
  "renderFileList2 c =
     (if currentFiles c = []
      then (ReferenceError ''restoreDropDefault'',
            c\<lparr>fileListEl := [], statusText := ''Ready'', resetHidden := True\<rparr>)
      else (ReferenceError ''setDropCompact'',
            c\<lparr>fileListEl := map make_tile (currentFiles c),
              previewRequests := previewRequests c @ currentFiles c,
              statusText := (case currentFiles c of
                               [f] \<Rightarrow> fname f
                             | fs \<Rightarrow> string_of_nat (length fs) @ '' files selected''),
              resetHidden := False\<rparr>))"

text \<open>The comparison of \<open>addFiles\<close>: name, size and modification time.\<close>

definition same_file :: "jsfile \<Rightarrow> jsfile \<Rightarrow> bool" where
  "same_file existing f =
     (fname existing = fname f \<and> fsize existing = fsize f \<and> lastModified existing = lastModified f)"

text \<open>The comparison of the second script's handlers: name and size only.\<close>

definition same_name_size :: "jsfile \<Rightarrow> jsfile \<Rightarrow> bool" where
  "same_name_size existing f = (fname existing = fname f \<and> fsize existing = fsize f)"

text \<open>The loop of \<open>addFiles\<close>: the list so far and the counter \<open>added\<close>.\<close>

fun addFiles_loop :: "jsfile list \<Rightarrow> jsfile list \<Rightarrow> nat \<Rightarrow> jsfile list \<times> nat" where
  "addFiles_loop [] cur added = (cur, added)"
| "addFiles_loop (f # fs) cur added =
     (let ext = toLowerCase (split_dot_pop (fname f)) in
      if \<not> (ext = ''ppt'' \<or> ext = ''pptx'') then addFiles_loop fs cur added
      else if \<not> list_ex (\<lambda>existing. same_file existing f) cur
           then addFiles_loop fs (cur @ [f]) (added + 1)
           else addFiles_loop fs cur added)"

definition addFiles :: "jsfile list \<Rightarrow> client \<Rightarrow> client" where
  "addFiles filesArray c =
     (if filesArray = [] then c
      else case addFiles_loop filesArray (currentFiles c) 0 of
        (cur, added) \<Rightarrow>
          let c1 = c\<lparr>currentFiles := cur\<rparr>;
              c2 = c1\<lparr>inputFiles := createFileList c1 cur\<rparr>
          in if 0 < added then renderFileList c2 else c2)"

text \<open>The \<open>drop\<close> and \<open>change\<close> listeners of the first script.\<close>

definition on_drop :: "jsfile list \<Rightarrow> client \<Rightarrow> client" where
  "on_drop dropped c =
     (let c1 = c\<lparr>dropDrag := False\<rparr> in if dropped \<noteq> [] then addFiles dropped c1 else c1)"

definition on_change :: "jsfile list \<Rightarrow> client \<Rightarrow> client" where
  "on_change picked c =
     (let c0 = c\<lparr>inputFiles := picked\<rparr>;
          c1 = (if picked \<noteq> [] then addFiles picked c0 else c0)
      in c1\<lparr>inputFiles := []\<rparr>)"

text \<open>
  The loop shared by the \<open>drop\<close> and \<open>change\<close> listeners of the second script. Each
  listener ends with the render, whose error is not caught: the page stays as it is at
  the throw.
\<close>

fun push_new :: "jsfile list \<Rightarrow> jsfile list \<Rightarrow> jsfile list" where
  "push_new [] cur = cur"
| "push_new (f # fs) cur =
     (if \<not> list_ex (\<lambda>existing. same_name_size existing f) cur
      then push_new fs (cur @ [f]) else push_new fs cur)"

definition on_drop2 :: "jsfile list \<Rightarrow> client \<Rightarrow> client" where
  "on_drop2 dropped c =
     (let c1 = c\<lparr>dropDrag := False\<rparr> in
      if dropped \<noteq> []
      then let c2 = c1\<lparr>currentFiles := push_new dropped (currentFiles c1)\<rparr>;
               c3 = c2\<lparr>inputFiles := createFileList c2 (currentFiles c2)\<rparr>
           in snd (renderFileList2 c3)
      else c1)"

definition on_change2 :: "jsfile list \<Rightarrow> client \<Rightarrow> client" where
  "on_change2 picked c =
     (let c0 = c\<lparr>inputFiles := picked\<rparr> in
      if picked \<noteq> []
      then let c2 = c0\<lparr>currentFiles := push_new picked (currentFiles c0)\<rparr>;
               c3 = c2\<lparr>inputFiles := createFileList c2 (currentFiles c2)\<rparr>
           in snd (renderFileList2 c3)
      else c0)"

text \<open>
  \<open>removeFileAt\<close> and \<open>resetSelection\<close> of the first script; \<open>splice(index, 1)\<close> on an
  index in range removes that one element.
\<close>

definition removeFileAt :: "int \<Rightarrow> client \<Rightarrow> client" where
  "removeFileAt index c =
     (if index < 0 \<or> index \<ge> int (length (currentFiles c)) then c
      else let i = nat index;
               c1 = c\<lparr>currentFiles := take i (currentFiles c) @ drop (Suc i) (currentFiles c)\<rparr>;
               c2 = c1\<lparr>inputFiles := createFileList c1 (currentFiles c1)\<rparr>
           in renderFileList c2)"

definition resetSelection :: "client \<Rightarrow> client" where
  "resetSelection c =
     restoreDropDefault
       (c\<lparr>currentFiles := [], inputFiles := [], fileListEl := [], resultEl := [],
          resetHidden := True, statusText := ''Ready''\<rparr>)"

text \<open>
  The same two functions in the second script. \<open>removeFileAt\<close> ends with the render
  and its error. \<open>resetSelection\<close> calls the render after emptying the list and the
  input; the error ends it there, so its last two statements, which would clear the
  result area and set the status line, are not reached.
\<close>

definition removeFileAt2 :: "int \<Rightarrow> client \<Rightarrow> client" where
  "removeFileAt2 index c =
     (if index < 0 \<or> index \<ge> int (length (currentFiles c)) then c
      else let i = nat index;
               c1 = c\<lparr>currentFiles := take i (currentFiles c) @ drop (Suc i) (currentFiles c)\<rparr>;
               c2 = c1\<lparr>inputFiles := createFileList c1 (currentFiles c1)\<rparr>
           in snd (renderFileList2 c2))"

definition resetSelection2 :: "client \<Rightarrow> client" where
  "resetSelection2 c = snd (renderFileList2 (c\<lparr>currentFiles := [], inputFiles := []\<rparr>))"

text \<open>
  The page after the script has loaded: \<open>let currentFiles = []\<close> and the initial render.
  The initial render of the second script leaves the same page.
\<close>

definition initial_client :: "bool \<Rightarrow> client" where
  "initial_client dt =
     renderFileList
       \<lparr>currentFiles = [], inputFiles = [], fileListEl = [], statusText = [],
        resetHidden = False, dropCompact = False, dropDrag = False, resultEl = [],
        previewRequests = [], hasDataTransfer = dt\<rparr>"

text \<open>What the user can do to the list, and a session as a sequence of such events.\<close>

datatype ui_event =
    Drop "jsfile list"
  | Change "jsfile list"
  | Drop2 "jsfile list"
  | Change2 "jsfile list"
  | Remove int
  | Reset
  | Remove2 int
  | Reset2

fun ui_step :: "client \<Rightarrow> ui_event \<Rightarrow> client" where
  "ui_step c (Drop fs) = on_drop fs c"
| "ui_step c (Change fs) = on_change fs c"
| "ui_step c (Drop2 fs) = on_drop2 fs c"
| "ui_step c (Change2 fs) = on_change2 fs c"
| "ui_step c (Remove i) = removeFileAt i c"
| "ui_step c Reset = resetSelection c"
| "ui_step c (Remove2 i) = removeFileAt2 i c"
| "ui_step c Reset2 = resetSelection2 c"

definition ui_run :: "client \<Rightarrow> ui_event list \<Rightarrow> client" where
  "ui_run c evs = foldl ui_step c evs"

text \<open>The key of the de-duplication, and the invariant: no key occurs twice.\<close>

definition file_key :: "jsfile \<Rightarrow> string \<times> nat \<times> int" where
  "file_key f = (fname f, fsize f, lastModified f)"

definition no_duplicates :: "jsfile list \<Rightarrow> bool" where
  "no_duplicates fs = distinct (map file_key fs)"


text \<open>Three files for examples: \<open>deck_a\<close> and \<open>deck_a_copy\<close> differ in their bytes only.\<close>

definition deck_a :: jsfile where
  "deck_a = \<lparr>fname = ''a.pptx'', fsize = 10, lastModified = 5, bytes = ''one''\<rparr>"

definition deck_a_copy :: jsfile where
  "deck_a_copy = \<lparr>fname = ''a.pptx'', fsize = 10, lastModified = 5, bytes = ''two''\<rparr>"

definition deck_b :: jsfile where
  "deck_b = \<lparr>fname = ''b.ppt'', fsize = 7, lastModified = 9, bytes = ''three''\<rparr>"

text \<open>The events that add files to the list.\<close>

fun is_add :: "ui_event \<Rightarrow> bool" where
  "is_add (Drop _) = True"
| "is_add (Change _) = True"
| "is_add (Drop2 _) = True"
| "is_add (Change2 _) = True"
| "is_add _ = False"

section \<open>The file system and the external tool (server.js)\<close>

text \<open>
  The source holds two versions of \<open>server.js\<close> with the same \<open>POST /convert\<close>,
  \<open>GET /download/:id\<close> and \<open>cleanup\<close>; the first adds \<open>POST /preview-pdf\<close>, the second
  \<open>POST /preview\<close> and \<open>GET /preview/:id\<close>. The model has the routes of both.
\<close>

text \<open>
  The server works in a few directories under \<open>os.tmpdir()\<close>, each holding plain files.
  A directory is the list of its entries, in no order that the server can see; a file
  path is the pair that \<open>path.join(dir, name)\<close> builds. A file holds bytes, a zip archive with its entries, or the partial output of an
  archive that failed.
\<close>

datatype fdata = Bytes string | Zip "(string \<times> fdata) list" | Partial

type_synonym fpath = "string \<times> string"

type_synonym filesystem = "string \<rightharpoonup> (string \<times> fdata) list"

datatype fs_error = ENOENT | ENOTEMPTY

definition path_string :: "fpath \<Rightarrow> string" where
  "path_string p = fst p @ ''/'' @ snd p"

text \<open>
  \<open>path.extname\<close> of Node (POSIX): the last component of the path, from its last dot on;
  empty when the component has no dot, starts with its only dot, or is \<open>..\<close>.
\<close>

definition last_component :: "string \<Rightarrow> string" where
  "last_component p =
     rev (takeWhile (\<lambda>c. c \<noteq> CHR ''/'') (dropWhile (\<lambda>c. c = CHR ''/'') (rev p)))"

definition extname :: "string \<Rightarrow> string" where
  "extname p =
     (let comp = last_component p; after = split_dot_pop comp in
      if CHR ''.'' \<notin> set comp then []
      else if Suc (length after) = length comp then []
      else if comp = ''..'' then []
      else CHR ''.'' # after)"

definition existsSync :: "fpath \<Rightarrow> filesystem \<Rightarrow> bool" where
  "existsSync p fs = (case fs (fst p) of None \<Rightarrow> False | Some es \<Rightarrow> map_of es (snd p) \<noteq> None)"

definition readFileSync :: "fpath \<Rightarrow> filesystem \<Rightarrow> fs_error + fdata" where
  "readFileSync p fs =
     (case fs (fst p) of
        None \<Rightarrow> Inl ENOENT
      | Some es \<Rightarrow> (case map_of es (snd p) of None \<Rightarrow> Inl ENOENT | Some v \<Rightarrow> Inr v))"

definition put_entry :: "string \<Rightarrow> fdata \<Rightarrow> (string \<times> fdata) list \<Rightarrow> (string \<times> fdata) list" where
  "put_entry n v es = filter (\<lambda>e. fst e \<noteq> n) es @ [(n, v)]"

definition writeFile :: "fpath \<Rightarrow> fdata \<Rightarrow> filesystem \<Rightarrow> fs_error + filesystem" where
  "writeFile p v fs =
     (case fs (fst p) of
        None \<Rightarrow> Inl ENOENT
      | Some es \<Rightarrow> Inr (fs(fst p \<mapsto> put_entry (snd p) v es)))"

definition unlinkSync :: "fpath \<Rightarrow> filesystem \<Rightarrow> fs_error + filesystem" where
  "unlinkSync p fs =
     (case fs (fst p) of
        None \<Rightarrow> Inl ENOENT
      | Some es \<Rightarrow>
          if map_of es (snd p) = None then Inl ENOENT
          else Inr (fs(fst p \<mapsto> filter (\<lambda>e. fst e \<noteq> snd p) es)))"

definition renameSync :: "fpath \<Rightarrow> fpath \<Rightarrow> filesystem \<Rightarrow> fs_error + filesystem" where
  "renameSync src dst fs =
     (case readFileSync src fs of
        Inl e \<Rightarrow> Inl e
      | Inr v \<Rightarrow>
          (case fs (fst dst) of
             None \<Rightarrow> Inl ENOENT
           | Some _ \<Rightarrow>
               (case unlinkSync src fs of
                  Inl e \<Rightarrow> Inl e
                | Inr fs1 \<Rightarrow> writeFile dst v fs1)))"

definition copyFileSync :: "fpath \<Rightarrow> fpath \<Rightarrow> filesystem \<Rightarrow> fs_error + filesystem" where
  "copyFileSync src dst fs =
     (case readFileSync src fs of Inl e \<Rightarrow> Inl e | Inr v \<Rightarrow> writeFile dst v fs)"

text \<open>
  \<open>fs.readdirSync(d)\<close> returns the names sorted bytewise, whatever the order in which
  the files were written.
\<close>

definition readdirSync :: "string \<Rightarrow> filesystem \<Rightarrow> fs_error + string list" where
  "readdirSync d fs =
     (case fs d of None \<Rightarrow> Inl ENOENT | Some es \<Rightarrow> Inr (sort (map fst es)))"

definition rmdirSync :: "string \<Rightarrow> filesystem \<Rightarrow> fs_error + filesystem" where
  "rmdirSync d fs =
     (case fs d of
        None \<Rightarrow> Inl ENOENT
      | Some es \<Rightarrow> if es = [] then Inr (fs(d := None)) else Inl ENOTEMPTY)"

text \<open>\<open>fs.mkdirSync(d, { recursive: true })\<close>: nothing happens when \<open>d\<close> exists.\<close>

definition mkdirSync :: "string \<Rightarrow> filesystem \<Rightarrow> filesystem" where
  "mkdirSync d fs = (case fs d of None \<Rightarrow> fs(d \<mapsto> []) | Some _ \<Rightarrow> fs)"

text \<open>\<open>try { fs.unlinkSync(p); } catch (e) {}\<close>\<close>

definition try_unlink :: "fpath \<Rightarrow> filesystem \<Rightarrow> filesystem" where
  "try_unlink p fs = (case unlinkSync p fs of Inl _ \<Rightarrow> fs | Inr fs1 \<Rightarrow> fs1)"

text \<open>\<open>cleanup(dir)\<close>: every error is swallowed, the inner ones per file.\<close>

definition cleanup :: "string \<Rightarrow> filesystem \<Rightarrow> filesystem" where
  "cleanup dir fs =
     (if fs dir \<noteq> None
      then (case readdirSync dir fs of
              Inl _ \<Rightarrow> fs
            | Inr names \<Rightarrow>
                let fs1 = foldl (\<lambda>a file. try_unlink (dir, file) a) fs names
                in (case rmdirSync dir fs1 of Inl _ \<Rightarrow> fs1 | Inr fs2 \<Rightarrow> fs2))
      else fs)"

text \<open>
  One run of the external tool, as the server can observe it: the process either fails
  to start, or closes after some milliseconds with an exit code unless it is killed
  first. \<open>wrote\<close> are the files it has put into its output directory by then, \<open>stderr\<close>
  what it printed. The tool is a function from the argument list to such a run.
\<close>

datatype proc = SpawnError string | Closes nat int

record tool_run =
  proc :: proc
  wrote :: "(string \<times> string) list"
  stderr :: string

type_synonym tool = "string list \<Rightarrow> tool_run"

definition write_outputs :: "string \<Rightarrow> (string \<times> string) list \<Rightarrow> filesystem \<Rightarrow> filesystem" where
  "write_outputs outdir ws fs =
     foldl (\<lambda>a w. case writeFile (outdir, fst w) (Bytes (snd w)) a of Inl _ \<Rightarrow> a | Inr a1 \<Rightarrow> a1) fs ws"

section \<open>The server state\<close>

record file_info =
  path :: fpath
  downloadName :: string

text \<open>The two callbacks the server gives to \<open>setTimeout\<close> with ten minutes.\<close>

datatype timer_action = ExpireGenerated string fpath | ExpirePreview string fpath

text \<open>
  \<open>generatedFiles\<close> and \<open>previewFiles\<close> are the two registries; \<open>timers\<close> are the pending
  expiry timers with the time they are due; \<open>spawned\<close> logs the argument list of every
  tool process started. \<open>exited\<close> says that the Node process has ended on an uncaught
  exception; the directories are what it leaves behind.
\<close>

record server =
  dirs :: filesystem
  generatedFiles :: "string \<rightharpoonup> file_info"
  previewFiles :: "string \<rightharpoonup> fpath"
  timers :: "(nat \<times> timer_action) list"
  clock :: nat
  spawned :: "string list list"
  exited :: bool

text \<open>
  What a handler sends: the JSON objects of the routes, a text, the file that
  \<open>res.download(path, name)\<close> or \<open>res.sendFile(path)\<close> streams, the bytes of a PDF, or
  the error page of Express for an error a middleware passed on.
\<close>

datatype body =
    JsonError string
  | JsonErrorDetail string string
  | JsonConverted string string
  | JsonPreview string
  | JsonHealth
  | Text string
  | Download fpath string
  | SentFile fpath
  | PdfBytes fdata
  | ErrorPage string

datatype response = Response (status: nat) (body: body)

text \<open>An uploaded file as multer hands it over, stored under \<open>tmpname\<close> in its directory.\<close>

record upload =
  originalname :: string
  tmpname :: string
  content :: string

text \<open>
  What a handler draws from outside the request: its two calls of \<open>uuidv4()\<close> and the
  error the archiver emits, if it emits one.
\<close>

record chance =
  uuid1 :: string
  uuid2 :: string
  archive_error :: "string option"

definition tmpdir :: string where
  "tmpdir = ''/tmp''"

definition uploadsDir :: string where
  "uploadsDir = tmpdir @ ''/ppt_uploads''"

definition filesDir :: string where
  "filesDir = tmpdir @ ''/ppt2pdf_files''"

definition previewFilesDir :: string where
  "previewFilesDir = tmpdir @ ''/ppt2pdf_preview_files''"

definition TTL :: nat where
  "TTL = 10 * 60 * 1000"

definition upload_path :: "upload \<Rightarrow> fpath" where
  "upload_path f = (uploadsDir, tmpname f)"


section \<open>Uploads: multer with the file filter\<close>

text \<open>
  \<open>upload.fileFilter\<close>: \<open>Inr True\<close> is \<open>cb(null, true)\<close>, \<open>Inl msg\<close> is
  \<open>cb(new Error(msg), false)\<close>.
\<close>

definition fileFilter :: "string \<Rightarrow> string + bool" where
  "fileFilter original =
     (let ext = toLowerCase (extname original) in
      if ext = ''.ppt'' \<or> ext = ''.pptx'' then Inr True
      else Inl ''Only .ppt and .pptx files allowed'')"

text \<open>
  multer takes the files of the field in order: a file beyond the count the route allows
  is an error, and so is a file the filter refuses. The first error ends the upload.
\<close>

fun multer_scan :: "nat \<Rightarrow> upload list \<Rightarrow> string option" where
  "multer_scan left [] = None"
| "multer_scan left (f # fs) =
     (if left = 0 then Some ''Unexpected field''
      else case fileFilter (originalname f) of
             Inl msg \<Rightarrow> Some msg
           | Inr _ \<Rightarrow> multer_scan (left - 1) fs)"

definition store_uploads :: "upload list \<Rightarrow> filesystem \<Rightarrow> filesystem" where
  "store_uploads files fs =
     foldl (\<lambda>a f. case writeFile (upload_path f) (Bytes (content f)) a of
                     Inl _ \<Rightarrow> a | Inr a1 \<Rightarrow> a1) fs files"

text \<open>
  A route behind \<open>upload.array('file', n)\<close> or \<open>upload.single('file')\<close>: on an error of
  the upload, nothing is kept on disk, the handler is not called and Express answers
  with its error page, status 500; otherwise the handler runs on the stored files.
\<close>

definition with_upload ::
  "nat \<Rightarrow> upload list \<Rightarrow> (upload list \<Rightarrow> server \<Rightarrow> response \<times> server) \<Rightarrow> server
   \<Rightarrow> response \<times> server" where
  "with_upload maxCount files handler s =
     (case multer_scan maxCount files of
        Some msg \<Rightarrow> (Response 500 (ErrorPage msg), s)
      | None \<Rightarrow> handler files (s\<lparr>dirs := store_uploads files (dirs s)\<rparr>))"

section \<open>POST /convert\<close>

definition soffice_args :: "string \<Rightarrow> string \<Rightarrow> string \<Rightarrow> string list" where
  "soffice_args fmt outdir inPath =
     [''--headless'', ''--invisible'', ''--convert-to'', fmt, ''--outdir'', outdir, inPath]"

text \<open>
  \<open>convertWithSoffice\<close>: \<open>Inl msg\<close> is the promise rejected with that message, \<open>Inr code\<close>
  the promise resolved. A process that has not closed after \<open>timeoutMs\<close> is killed
  and the promise rejected; a process that closes in time resolves it, whatever its
  exit code.
\<close>

definition convertWithSoffice ::
  "tool \<Rightarrow> fpath \<Rightarrow> string \<Rightarrow> nat \<Rightarrow> server \<Rightarrow> (string + int) \<times> server" where
  "convertWithSoffice soffice inPath workdir timeoutMs s =
     (let args = soffice_args ''pdf'' workdir (path_string inPath);
          run = soffice args;
          s1 = s\<lparr>spawned := spawned s @ [args]\<rparr>
      in case proc run of
           SpawnError msg \<Rightarrow> (Inl msg, s1)
         | Closes t code \<Rightarrow>
             let s2 = s1\<lparr>dirs := write_outputs workdir (wrote run) (dirs s1)\<rparr>
             in if t < timeoutMs then (Inr code, s2) else (Inl ''Conversion timeout'', s2))"

text \<open>The first loop: move the uploads into the scratch directory; an error is thrown.\<close>

fun move_uploads :: "string \<Rightarrow> upload list \<Rightarrow> filesystem \<Rightarrow> fs_error option \<times> filesystem" where
  "move_uploads workdir [] fs = (None, fs)"
| "move_uploads workdir (f # rest) fs =
     (case renameSync (upload_path f) (workdir, originalname f) fs of
        Inl e \<Rightarrow> (Some e, fs)
      | Inr fs1 \<Rightarrow> move_uploads workdir rest fs1)"

text \<open>
  The second loop: convert the files one after the other; a rejected conversion cleans
  up and returns the response at once.
\<close>

fun convert_each :: "tool \<Rightarrow> string \<Rightarrow> upload list \<Rightarrow> server \<Rightarrow> response option \<times> server" where
  "convert_each soffice workdir [] s = (None, s)"
| "convert_each soffice workdir (f # rest) s =
     (case convertWithSoffice soffice (workdir, originalname f) workdir 150000 s of
        (Inl msg, s1) \<Rightarrow>
          (Some (Response 500
                   (JsonError (''Conversion failed for: '' @ originalname f @ ''. '' @ msg))),
           s1\<lparr>dirs := cleanup workdir (dirs s1)\<rparr>)
      | (Inr code, s1) \<Rightarrow> convert_each soffice workdir rest s1)"

definition is_pdf_name :: "string \<Rightarrow> bool" where
  "is_pdf_name fn = endsWith (toLowerCase fn) ''.pdf''"

text \<open>Registering an artifact: the registry entry and its ten-minute timer.\<close>

definition register_generated :: "string \<Rightarrow> fpath \<Rightarrow> string \<Rightarrow> server \<Rightarrow> server" where
  "register_generated ident p nm s =
     s\<lparr>generatedFiles := (generatedFiles s)(ident \<mapsto> \<lparr>path = p, downloadName = nm\<rparr>),
       timers := timers s @ [(clock s + TTL, ExpireGenerated ident p)]\<rparr>"

text \<open>The entries the archiver reads for \<open>archive.file(p, { name: pdf })\<close>.\<close>

definition zip_entries :: "string \<Rightarrow> string list \<Rightarrow> filesystem \<Rightarrow> (string \<times> fdata) list" where
  "zip_entries workdir pdfFiles fs =
     concat (map (\<lambda>pdf. case readFileSync (workdir, pdf) fs of
                            Inl _ \<Rightarrow> [] | Inr v \<Rightarrow> [(pdf, v)]) pdfFiles)"

definition write_stream :: "fpath \<Rightarrow> fdata \<Rightarrow> filesystem \<Rightarrow> filesystem" where
  "write_stream p v fs = (case writeFile p v fs of Inl _ \<Rightarrow> fs | Inr fs1 \<Rightarrow> fs1)"

text \<open>
  The body of the \<open>try\<close> of the handler, in its two parts. \<open>Threw\<close> carries the state
  reached when a file-system call throws, \<open>Done\<close> what the part returns. The first part
  makes the scratch directory, moves the uploads and runs the conversions; it returns
  the response of a rejected conversion, if there is one.
\<close>

datatype 'a tried = Threw server | Done 'a

definition convert_prepare ::
  "tool \<Rightarrow> upload list \<Rightarrow> string \<Rightarrow> server \<Rightarrow> (response option \<times> server) tried" where
  "convert_prepare soffice files workdir s =
     (let s1 = s\<lparr>dirs := mkdirSync workdir (dirs s)\<rparr> in
      case move_uploads workdir files (dirs s1) of
        (Some e, d) \<Rightarrow> Threw (s1\<lparr>dirs := d\<rparr>)
      | (None, d) \<Rightarrow> Done (convert_each soffice workdir files (s1\<lparr>dirs := d\<rparr>)))"

text \<open>
  The second part collects the PDFs of the scratch directory and registers the
  artifact: the PDF itself when there is one, a zip of them when there are more.
\<close>

definition convert_collect :: "chance \<Rightarrow> string \<Rightarrow> server \<Rightarrow> (response \<times> server) tried" where
  "convert_collect ch workdir s2 =
     (case readdirSync workdir (dirs s2) of
        Inl e \<Rightarrow> Threw s2
      | Inr names \<Rightarrow>
          (case filter is_pdf_name names of
             [] \<Rightarrow>
               Done (Response 500 (JsonError ''Conversion failed: no PDF produced.''),
                     s2\<lparr>dirs := cleanup workdir (dirs s2)\<rparr>)
           | [pdf] \<Rightarrow>
               (let s3 = s2\<lparr>dirs := mkdirSync filesDir (dirs s2)\<rparr>;
                    ident = uuid2 ch;
                    pdfPath = (workdir, pdf);
                    destPath = (filesDir, ident @ extname (path_string pdfPath))
                in case copyFileSync pdfPath destPath (dirs s3) of
                     Inl e \<Rightarrow> Threw s3
                   | Inr d4 \<Rightarrow>
                       let s4 = register_generated ident destPath pdf (s3\<lparr>dirs := d4\<rparr>)
                       in Done (Response 200 (JsonConverted (''/download/'' @ ident) pdf),
                                s4\<lparr>dirs := cleanup workdir (dirs s4)\<rparr>))
           | pdfFiles \<Rightarrow>
               (let s3 = s2\<lparr>dirs := mkdirSync filesDir (dirs s2)\<rparr>;
                    ident = uuid2 ch;
                    zipPath = (filesDir, ident @ ''.zip'')
                in case archive_error ch of
                     Some msg \<Rightarrow>
                       Done (Response 500 (JsonError (''Failed creating ZIP: '' @ msg)),
                             s3\<lparr>dirs := cleanup workdir
                                          (write_stream zipPath Partial (dirs s3))\<rparr>)
                   | None \<Rightarrow>
                       let archive = Zip (zip_entries workdir pdfFiles (dirs s3));
                           s4 = register_generated ident zipPath ''converted-pdfs.zip''
                                  (s3\<lparr>dirs := write_stream zipPath archive (dirs s3)\<rparr>)
                       in Done (Response 200
                                  (JsonConverted (''/download/'' @ ident) ''converted-pdfs.zip''),
                                s4\<lparr>dirs := cleanup workdir (dirs s4)\<rparr>))))"

definition convert_try ::
  "tool \<Rightarrow> chance \<Rightarrow> upload list \<Rightarrow> string \<Rightarrow> server \<Rightarrow> (response \<times> server) tried" where
  "convert_try soffice ch files workdir s =
     (case convert_prepare soffice files workdir s of
        Threw s1 \<Rightarrow> Threw s1
      | Done (Some resp, s2) \<Rightarrow> Done (resp, s2)
      | Done (None, s2) \<Rightarrow> convert_collect ch workdir s2)"

definition convert_workdir :: "chance \<Rightarrow> string" where
  "convert_workdir ch = tmpdir @ ''/ppt2pdf_'' @ uuid1 ch"

definition convert_handler :: "tool \<Rightarrow> chance \<Rightarrow> upload list \<Rightarrow> server \<Rightarrow> response \<times> server" where
  "convert_handler soffice ch files s =
     (if files = [] then (Response 400 (JsonError ''No files uploaded.''), s)
      else let workdir = convert_workdir ch in
        case convert_try soffice ch files workdir s of
          Done r \<Rightarrow> r
        | Threw s1 \<Rightarrow>
            (Response 500 (JsonError ''Server error.''),
             s1\<lparr>dirs := cleanup workdir
                          (foldl (\<lambda>a f. try_unlink (upload_path f) a) (dirs s1) files)\<rparr>))"

definition post_convert :: "tool \<Rightarrow> chance \<Rightarrow> upload list \<Rightarrow> server \<Rightarrow> response \<times> server" where
  "post_convert soffice ch files s = with_upload 50 files (convert_handler soffice ch) s"


section \<open>POST /preview-pdf and POST /preview\<close>

text \<open>
  Both handlers start the tool themselves and listen for \<open>error\<close> and for \<open>close\<close>.
  Their timer only kills the process after 120 seconds; the \<open>close\<close> listener then
  runs as for any other exit, so the time and the exit code of the run play no part.

  When the process cannot be started, Node emits \<open>error\<close> and then \<open>close\<close>. The
  \<open>error\<close> listener removes the scratch directory and answers 500. The \<open>close\<close>
  listener runs as well, and every path through it ends in a call that sends a
  response. The response being sent already, that call throws
  \<open>ERR_HTTP_HEADERS_SENT\<close>, inside the \<open>catch\<close> at the latest, and nothing catches it:
  the Node process ends. The registries and the timers, which live in its memory, are
  gone; the files stay where they are.
\<close>

definition process_exit :: "server \<Rightarrow> server" where
  "process_exit s =
     s\<lparr>generatedFiles := Map.empty, previewFiles := Map.empty, timers := [], exited := True\<rparr>"

text \<open>
  The \<open>close\<close> listener of \<open>POST /preview-pdf\<close>: the response it sends and the state
  then; the PDF it reads is the first of the listing.
\<close>

definition preview_pdf_close :: "tool_run \<Rightarrow> string \<Rightarrow> server \<Rightarrow> response \<times> server" where
  "preview_pdf_close tr workdir s3 =
     (let cleaned = s3\<lparr>dirs := cleanup workdir (dirs s3)\<rparr>;
          failed = (Response 500 (JsonError ''Server error during preview-pdf generation.''),
                    cleaned)
      in case readdirSync workdir (dirs s3) of
           Inl e \<Rightarrow> failed
         | Inr names \<Rightarrow>
             (case filter is_pdf_name names of
                [] \<Rightarrow>
                  (Response 500
                     (JsonErrorDetail ''Preview PDF generation failed: no PDF produced.''
                        (stderr tr)),
                   cleaned)
              | pdf # _ \<Rightarrow>
                  (case readFileSync (workdir, pdf) (dirs s3) of
                     Inl e \<Rightarrow> failed
                   | Inr buf \<Rightarrow> (Response 200 (PdfBytes buf), cleaned))))"

definition preview_pdf_handler ::
  "tool \<Rightarrow> chance \<Rightarrow> upload list \<Rightarrow> server \<Rightarrow> response \<times> server" where
  "preview_pdf_handler soffice ch files s =
     (case files of
        [] \<Rightarrow> (Response 400 (JsonError ''No file uploaded.''), s)
      | f # _ \<Rightarrow>
          let uploadedPath = upload_path f;
              workdir = tmpdir @ ''/ppt_preview_pdf_'' @ uuid1 ch;
              s1 = s\<lparr>dirs := mkdirSync workdir (dirs s)\<rparr>;
              inPath = (workdir, originalname f)
          in case renameSync uploadedPath inPath (dirs s1) of
               Inl e \<Rightarrow>
                 (Response 500 (JsonError ''Server error.''),
                  s1\<lparr>dirs := cleanup workdir (try_unlink uploadedPath (dirs s1))\<rparr>)
             | Inr d \<Rightarrow>
                 let args = soffice_args ''pdf'' workdir (path_string inPath);
                     tr = soffice args;
                     s2 = s1\<lparr>dirs := d, spawned := spawned s1 @ [args]\<rparr>
                 in case proc tr of
                      SpawnError msg \<Rightarrow>
                        (Response 500 (JsonErrorDetail ''Failed to start LibreOffice (soffice).'' msg),
                         process_exit
                           (snd (preview_pdf_close tr workdir
                                   (s2\<lparr>dirs := cleanup workdir (dirs s2)\<rparr>))))
                    | Closes t code \<Rightarrow>
                        preview_pdf_close tr workdir
                          (s2\<lparr>dirs := write_outputs workdir (wrote tr) (dirs s2)\<rparr>))"

definition post_preview_pdf :: "tool \<Rightarrow> chance \<Rightarrow> upload list \<Rightarrow> server \<Rightarrow> response \<times> server" where
  "post_preview_pdf soffice ch files s = with_upload 1 files (preview_pdf_handler soffice ch) s"

definition is_png_name :: "string \<Rightarrow> bool" where
  "is_png_name fn = endsWith (toLowerCase fn) ''.png''"

definition register_preview :: "string \<Rightarrow> fpath \<Rightarrow> server \<Rightarrow> server" where
  "register_preview ident p s =
     s\<lparr>previewFiles := (previewFiles s)(ident \<mapsto> p),
       timers := timers s @ [(clock s + TTL, ExpirePreview ident p)]\<rparr>"

text \<open>The \<open>close\<close> listener of \<open>POST /preview\<close>.\<close>

definition preview_close :: "tool_run \<Rightarrow> chance \<Rightarrow> string \<Rightarrow> server \<Rightarrow> response \<times> server" where
  "preview_close tr ch workdir s3 =
     (let failed = (\<lambda>s'. (Response 500 (JsonError ''Server error during preview generation.''),
                           s'\<lparr>dirs := cleanup workdir (dirs s')\<rparr>))
      in case readdirSync workdir (dirs s3) of
           Inl e \<Rightarrow> failed s3
         | Inr names \<Rightarrow>
             (case sort (filter is_png_name names) of
                [] \<Rightarrow>
                  (Response 500
                     (JsonErrorDetail ''Preview generation failed: no image produced.''
                        (stderr tr)),
                   s3\<lparr>dirs := cleanup workdir (dirs s3)\<rparr>)
              | img # _ \<Rightarrow>
                  let imgPath = (workdir, img);
                      s4 = s3\<lparr>dirs := mkdirSync previewFilesDir (dirs s3)\<rparr>;
                      ident = uuid2 ch;
                      destPath = (previewFilesDir, ident @ extname (path_string imgPath))
                  in case copyFileSync imgPath destPath (dirs s4) of
                       Inl e \<Rightarrow> failed s4
                     | Inr d5 \<Rightarrow>
                         let s5 = register_preview ident destPath (s4\<lparr>dirs := d5\<rparr>)
                         in (Response 200 (JsonPreview (''/preview/'' @ ident)),
                             s5\<lparr>dirs := cleanup workdir (dirs s5)\<rparr>)))"

definition preview_handler ::
  "tool \<Rightarrow> chance \<Rightarrow> upload list \<Rightarrow> server \<Rightarrow> response \<times> server" where
  "preview_handler soffice ch files s =
     (case files of
        [] \<Rightarrow> (Response 400 (JsonError ''No file uploaded.''), s)
      | f # _ \<Rightarrow>
          let uploadedPath = upload_path f;
              workdir = tmpdir @ ''/ppt_preview_'' @ uuid1 ch;
              s1 = s\<lparr>dirs := mkdirSync workdir (dirs s)\<rparr>;
              inPath = (workdir, originalname f)
          in case renameSync uploadedPath inPath (dirs s1) of
               Inl e \<Rightarrow>
                 (Response 500 (JsonError ''Server error.''),
                  s1\<lparr>dirs := cleanup workdir (try_unlink uploadedPath (dirs s1))\<rparr>)
             | Inr d \<Rightarrow>
                 let args = soffice_args ''png'' workdir (path_string inPath);
                     tr = soffice args;
                     s2 = s1\<lparr>dirs := d, spawned := spawned s1 @ [args]\<rparr>
                 in case proc tr of
                      SpawnError msg \<Rightarrow>
                        (Response 500 (JsonErrorDetail ''Failed to start LibreOffice (soffice).'' msg),
                         process_exit
                           (snd (preview_close tr ch workdir
                                   (s2\<lparr>dirs := cleanup workdir (dirs s2)\<rparr>))))
                    | Closes t code \<Rightarrow>
                        preview_close tr ch workdir
                          (s2\<lparr>dirs := write_outputs workdir (wrote tr) (dirs s2)\<rparr>))"

definition post_preview :: "tool \<Rightarrow> chance \<Rightarrow> upload list \<Rightarrow> server \<Rightarrow> response \<times> server" where
  "post_preview soffice ch files s = with_upload 1 files (preview_handler soffice ch) s"

section \<open>GET /preview/:id, GET /download/:id and GET /health\<close>

definition get_preview :: "string \<Rightarrow> server \<Rightarrow> response \<times> server" where
  "get_preview ident s =
     (case previewFiles s ident of
        None \<Rightarrow> (Response 404 (Text ''Preview not found or expired.''), s)
      | Some p \<Rightarrow>
          if \<not> existsSync p (dirs s)
          then (Response 404 (Text ''Preview not found or expired.''), s)
          else (Response 200 (SentFile p), s))"

text \<open>
  The callback of \<open>res.download\<close>, run when the response has completed: the file is
  unlinked, errors ignored, and the registry entry deleted.
\<close>

definition download_finished :: "string \<Rightarrow> file_info \<Rightarrow> server \<Rightarrow> server" where
  "download_finished ident info s =
     s\<lparr>dirs := try_unlink (path info) (dirs s),
       generatedFiles := (generatedFiles s)(ident := None)\<rparr>"

text \<open>
  The handler: the response, and the state once the response has completed and the
  callback has run.
\<close>

definition get_download :: "string \<Rightarrow> server \<Rightarrow> response \<times> server" where
  "get_download ident s =
     (case generatedFiles s ident of
        None \<Rightarrow> (Response 404 (Text ''File not found or expired.''), s)
      | Some info \<Rightarrow>
          if \<not> existsSync (path info) (dirs s)
          then (Response 404 (Text ''File not found or expired.''), s)
          else let nm = (if downloadName info = [] then snd (path info) else downloadName info)
               in (Response 200 (Download (path info) nm), download_finished ident info s))"

definition get_health :: "server \<Rightarrow> response \<times> server" where
  "get_health s = (Response 200 JsonHealth, s)"

section \<open>Time and the expiry timers\<close>

fun fire :: "timer_action \<Rightarrow> server \<Rightarrow> server" where
  "fire (ExpireGenerated ident p) s =
     s\<lparr>dirs := try_unlink p (dirs s), generatedFiles := (generatedFiles s)(ident := None)\<rparr>"
| "fire (ExpirePreview ident p) s =
     s\<lparr>dirs := try_unlink p (dirs s), previewFiles := (previewFiles s)(ident := None)\<rparr>"

text \<open>
  Time passes until the clock shows \<open>t\<close>: every timer due by then runs, the earliest
  first, and is no longer pending.
\<close>

definition advance :: "nat \<Rightarrow> server \<Rightarrow> server" where
  "advance t s =
     (let due = filter (\<lambda>tm. fst tm \<le> t) (timers s);
          rest = filter (\<lambda>tm. \<not> fst tm \<le> t) (timers s)
      in (foldl (\<lambda>a tm. fire (snd tm) a) (s\<lparr>timers := rest\<rparr>) (sort_key fst due))
           \<lparr>clock := max (clock s) t\<rparr>)"

section \<open>The server as a system of events\<close>

text \<open>
  A request is one step: the handler runs to its response without another request or
  timer in between, and the state it returns is the state at the moment the response
  is sent (for a download: once the response has completed; for a preview whose tool
  cannot be started: once the process has ended). Time passes between requests only,
  by \<open>Tick\<close>. A process that has ended answers no request: \<open>handle\<close> gives \<open>None\<close>.
\<close>

datatype request =
    PostConvert chance "upload list"
  | PostPreviewPdf chance "upload list"
  | PostPreview chance "upload list"
  | GetDownload string
  | GetPreview string
  | GetHealth

datatype event = Request request | Tick nat

fun route :: "tool \<Rightarrow> request \<Rightarrow> server \<Rightarrow> response \<times> server" where
  "route soffice (PostConvert ch files) s = post_convert soffice ch files s"
| "route soffice (PostPreviewPdf ch files) s = post_preview_pdf soffice ch files s"
| "route soffice (PostPreview ch files) s = post_preview soffice ch files s"
| "route soffice (GetDownload ident) s = get_download ident s"
| "route soffice (GetPreview ident) s = get_preview ident s"
| "route soffice GetHealth s = get_health s"

definition handle :: "tool \<Rightarrow> request \<Rightarrow> server \<Rightarrow> response option \<times> server" where
  "handle soffice r s =
     (if exited s then (None, s)
      else case route soffice r s of (resp, s') \<Rightarrow> (Some resp, s'))"

fun step :: "tool \<Rightarrow> server \<Rightarrow> event \<Rightarrow> server" where
  "step soffice s (Request r) = snd (handle soffice r s)"
| "step soffice s (Tick t) = advance t s"

definition run :: "tool \<Rightarrow> server \<Rightarrow> event list \<Rightarrow> server" where
  "run soffice s evs = foldl (step soffice) s evs"

text \<open>The server after start: empty registries, no timer, multer's directory created.\<close>

definition initial_server :: server where
  "initial_server =
     \<lparr>dirs = Map.empty(uploadsDir \<mapsto> []), generatedFiles = Map.empty, previewFiles = Map.empty,
      timers = [], clock = 0, spawned = [], exited = False\<rparr>"


section \<open>Notions for stating the properties of the server\<close>

text \<open>The argument list of the conversion of one uploaded file, and how its run can end.\<close>

definition convert_args :: "string \<Rightarrow> upload \<Rightarrow> string list" where
  "convert_args workdir f = soffice_args ''pdf'' workdir (path_string (workdir, originalname f))"

definition timed_out :: "tool_run \<Rightarrow> bool" where
  "timed_out r = (case proc r of SpawnError _ \<Rightarrow> False | Closes t code \<Rightarrow> 150000 \<le> t)"

definition failed_to_start :: "tool_run \<Rightarrow> bool" where
  "failed_to_start r = (case proc r of SpawnError _ \<Rightarrow> True | Closes t code \<Rightarrow> False)"

definition rejected :: "tool_run \<Rightarrow> bool" where
  "rejected r = (timed_out r \<or> failed_to_start r)"

text \<open>The same tool, but with every process that closes reporting the exit code \<open>c\<close>.\<close>

definition with_exit_code :: "int \<Rightarrow> tool \<Rightarrow> tool" where
  "with_exit_code c soffice =
     (\<lambda>args. let r = soffice args in
        r\<lparr>proc := (case proc r of SpawnError msg \<Rightarrow> SpawnError msg | Closes t _ \<Rightarrow> Closes t c)\<rparr>)"

text \<open>
  Neither registry, no timer and not the clock has changed, and the process runs as
  before.
\<close>

definition registry_unchanged :: "server \<Rightarrow> server \<Rightarrow> bool" where
  "registry_unchanged s s' =
     (generatedFiles s' = generatedFiles s \<and> previewFiles s' = previewFiles s \<and>
      timers s' = timers s \<and> clock s' = clock s \<and> exited s' = exited s)"

text \<open>
  One artifact has been registered under the second uuid of the request, for a file in
  the directory of the artifacts, with its timer; nothing else has changed in the
  registries.
\<close>

definition registered :: "chance \<Rightarrow> server \<Rightarrow> server \<Rightarrow> bool" where
  "registered ch s s' =
     (\<exists>info. generatedFiles s' = (generatedFiles s)(uuid2 ch \<mapsto> info) \<and>
             fst (path info) = filesDir \<and>
             timers s' = timers s @ [(clock s + TTL, ExpireGenerated (uuid2 ch) (path info))] \<and>
             previewFiles s' = previewFiles s \<and> clock s' = clock s \<and> exited s' = exited s)"

text \<open>
  The Node process has ended during the step: what was in its memory is gone, and the
  clock is where it was.
\<close>

definition process_ended :: "server \<Rightarrow> server \<Rightarrow> bool" where
  "process_ended s s' =
     (exited s' \<and> generatedFiles s' = Map.empty \<and> previewFiles s' = Map.empty \<and>
      timers s' = [] \<and> clock s' = clock s)"

text \<open>No directory lists a name twice, as in any file system.\<close>

definition distinct_names :: "filesystem \<Rightarrow> bool" where
  "distinct_names fs = (\<forall>d es. fs d = Some es \<longrightarrow> distinct (map fst es))"

text \<open>
  The PDFs in the scratch directory of a request to \<open>POST /convert\<close> when its
  conversions are over, with their bytes, in the order of their names; none when the
  request ends before.
\<close>

definition produced_pdfs :: "tool \<Rightarrow> chance \<Rightarrow> upload list \<Rightarrow> server \<Rightarrow> (string \<times> fdata) list" where
  "produced_pdfs soffice ch files s =
     (case multer_scan 50 files of
        Some _ \<Rightarrow> []
      | None \<Rightarrow>
          (case convert_prepare soffice files (convert_workdir ch)
                  (s\<lparr>dirs := store_uploads files (dirs s)\<rparr>) of
             Done (None, s2) \<Rightarrow>
               (case dirs s2 (convert_workdir ch) of
                  None \<Rightarrow> []
                | Some es \<Rightarrow> sort_key fst (filter (\<lambda>e. is_pdf_name (fst e)) es))
           | _ \<Rightarrow> []))"

text \<open>An event that can register an artifact under \<open>ident\<close>, and the file a timer unlinks.\<close>

fun registers :: "string \<Rightarrow> event \<Rightarrow> bool" where
  "registers ident (Request (PostConvert ch files)) = (uuid2 ch = ident)"
| "registers ident _ = False"

fun registers_preview :: "string \<Rightarrow> event \<Rightarrow> bool" where
  "registers_preview ident (Request (PostPreview ch files)) = (uuid2 ch = ident)"
| "registers_preview ident _ = False"

fun timer_path :: "timer_action \<Rightarrow> fpath" where
  "timer_path (ExpireGenerated ident p) = p"
| "timer_path (ExpirePreview ident p) = p"

text \<open>One preview has been registered under the second uuid of the request.\<close>

definition preview_registered :: "chance \<Rightarrow> server \<Rightarrow> server \<Rightarrow> bool" where
  "preview_registered ch s s' =
     (\<exists>p. previewFiles s' = (previewFiles s)(uuid2 ch \<mapsto> p) \<and>
          timers s' = timers s @ [(clock s + TTL, ExpirePreview (uuid2 ch) p)] \<and>
          generatedFiles s' = generatedFiles s \<and> clock s' = clock s \<and> exited s' = exited s)"

text \<open>Every pending timer is due in the future.\<close>

definition timers_pending :: "server \<Rightarrow> bool" where
  "timers_pending s = (\<forall>tm\<in>set (timers s). clock s < fst tm)"


text \<open>Uploads, uuids and tools for examples.\<close>

definition up_a :: upload where
  "up_a = \<lparr>originalname = ''a.pptx'', tmpname = ''t1'', content = ''AAA''\<rparr>"

definition up_b :: upload where
  "up_b = \<lparr>originalname = ''b.ppt'', tmpname = ''t2'', content = ''BBB''\<rparr>"

definition up_txt :: upload where
  "up_txt = \<lparr>originalname = ''notes.txt'', tmpname = ''t3'', content = ''TTT''\<rparr>"

definition ch1 :: chance where
  "ch1 = \<lparr>uuid1 = ''w1'', uuid2 = ''i1'', archive_error = None\<rparr>"

text \<open>A tool that converts every file in a second.\<close>

definition good_tool :: tool where
  "good_tool args =
     (if last args = ''/tmp/ppt2pdf_w1/a.pptx''
      then \<lparr>proc = Closes 1000 0, wrote = [(''a.pdf'', ''PDFA'')], stderr = []\<rparr>
      else if last args = ''/tmp/ppt2pdf_w1/b.ppt''
      then \<lparr>proc = Closes 1000 0, wrote = [(''b.pdf'', ''PDFB'')], stderr = []\<rparr>
      else \<lparr>proc = Closes 1000 0, wrote = [(''a.png'', ''PNGA'')], stderr = []\<rparr>)"

text \<open>A tool that exits with code 1 and no output on \<open>a.pptx\<close> and converts other files.\<close>

definition flaky_tool :: tool where
  "flaky_tool args =
     (if last args = ''/tmp/ppt2pdf_w1/a.pptx''
      then \<lparr>proc = Closes 1000 1, wrote = [], stderr = ''Error: source file could not be loaded''\<rparr>
      else \<lparr>proc = Closes 1000 0, wrote = [(''b.pdf'', ''PDFB'')], stderr = []\<rparr>)"

text \<open>
  A tool that converts \<open>a.pptx\<close> for \<open>POST /convert\<close> and cannot be started for any
  other call, and a second request's uuids.
\<close>

definition unsteady_tool :: tool where
  "unsteady_tool args =
     (if last args = ''/tmp/ppt2pdf_w1/a.pptx''
      then \<lparr>proc = Closes 1000 0, wrote = [(''a.pdf'', ''PDFA'')], stderr = []\<rparr>
      else \<lparr>proc = SpawnError ''spawn soffice EAGAIN'', wrote = [], stderr = []\<rparr>)"

definition ch2 :: chance where
  "ch2 = \<lparr>uuid1 = ''w2'', uuid2 = ''i2'', archive_error = None\<rparr>"

text \<open>A tool that hangs: it is still running after any timeout of the server.\<close>

definition slow_tool :: tool where
  "slow_tool args = \<lparr>proc = Closes 1000000 0, wrote = [], stderr = []\<rparr>"

text \<open>A registry entry whose file is not on disk.\<close>

definition stale_server :: server where
  "stale_server =
     initial_server\<lparr>generatedFiles := [''i1'' \<mapsto> \<lparr>path = (filesDir, ''i1.pdf''), downloadName = ''a.pdf''\<rparr>]\<rparr>"

text \<open>The server after one conversion, and after one preview.\<close>

definition converted_server :: server where
  "converted_server = snd (post_convert good_tool ch1 [up_a] initial_server)"

definition previewed_server :: server where
  "previewed_server = snd (post_preview good_tool ch1 [up_a] initial_server)"


section \<open>Properties of the client file list\<close>

lemma list_ex_same_file: "list_ex (\<lambda>e. same_file e f) cur \<longleftrightarrow> file_key f \<in> file_key ` set cur"
proof
  assume "list_ex (\<lambda>e. same_file e f) cur"
  then obtain e where "e \<in> set cur" "same_file e f" by (auto simp: list_ex_iff)
  then have "file_key e = file_key f" "e \<in> set cur" by (simp_all add: same_file_def file_key_def)
  then show "file_key f \<in> file_key ` set cur" by (metis imageI)
next
  assume "file_key f \<in> file_key ` set cur"
  then obtain e where "e \<in> set cur" "file_key f = file_key e" by auto
  then show "list_ex (\<lambda>e. same_file e f) cur"
    by (auto simp: list_ex_iff same_file_def file_key_def)
qed

lemma same_name_size_if_key:
  "file_key f \<in> file_key ` set cur \<Longrightarrow> list_ex (\<lambda>e. same_name_size e f) cur"
  by (auto simp: list_ex_iff same_name_size_def file_key_def)

lemma addFiles_loop_no_duplicates:
  "no_duplicates cur \<Longrightarrow> no_duplicates (fst (addFiles_loop fs cur added))"
  by (induction fs cur added rule: addFiles_loop.induct)
     (auto simp: Let_def no_duplicates_def list_ex_same_file)

lemma push_new_no_duplicates:
  "no_duplicates cur \<Longrightarrow> no_duplicates (push_new fs cur)"
proof (induction fs cur rule: push_new.induct)
  case (1 cur)
  then show ?case by simp
next
  case (2 f fs cur)
  show ?case
  proof (cases "list_ex (\<lambda>e. same_name_size e f) cur")
    case True
    with 2 show ?thesis by simp
  next
    case False
    then have "file_key f \<notin> file_key ` set cur"
      using same_name_size_if_key by blast
    with "2.prems" have "no_duplicates (cur @ [f])"
      by (simp add: no_duplicates_def)
    with 2 False show ?thesis by simp
  qed
qed

lemma currentFiles_renderFileList [simp]: "currentFiles (renderFileList c) = currentFiles c"
  by (simp add: renderFileList_def setDropCompact_def restoreDropDefault_def)

lemma currentFiles_renderFileList2 [simp]:
  "currentFiles (snd (renderFileList2 c)) = currentFiles c"
  by (simp add: renderFileList2_def)

lemma currentFiles_addFiles:
  "currentFiles (addFiles fs c) = fst (addFiles_loop fs (currentFiles c) 0)"
  by (cases "addFiles_loop fs (currentFiles c) 0") (auto simp: addFiles_def Let_def)

lemma no_duplicates_remove:
  "no_duplicates fs \<Longrightarrow> no_duplicates (take i fs @ drop (Suc i) fs)"
proof -
  assume d: "no_duplicates fs"
  have "map file_key (take i fs @ drop (Suc i) fs)
        = take i (map file_key fs) @ drop (Suc i) (map file_key fs)"
    by (simp add: take_map drop_map)
  moreover have "distinct (take i ks @ drop (Suc i) ks)" if "distinct ks" for ks :: "(string \<times> nat \<times> int) list"
  proof -
    have "set (take i ks) \<inter> set (drop (Suc i) ks) = {}"
      using that set_take_disj_set_drop_if_distinct[of ks i "Suc i"] by simp
    with that show ?thesis by simp
  qed
  ultimately show ?thesis using d by (simp add: no_duplicates_def)
qed

lemma ui_step_no_duplicates:
  "no_duplicates (currentFiles c) \<Longrightarrow> no_duplicates (currentFiles (ui_step c ev))"
proof (cases ev)
  case (Drop fs)
  assume "no_duplicates (currentFiles c)"
  then show ?thesis using Drop
    by (simp add: on_drop_def Let_def currentFiles_addFiles addFiles_loop_no_duplicates)
next
  case (Change fs)
  assume "no_duplicates (currentFiles c)"
  then show ?thesis using Change
    by (simp add: on_change_def Let_def currentFiles_addFiles addFiles_loop_no_duplicates)
next
  case (Drop2 fs)
  assume "no_duplicates (currentFiles c)"
  then show ?thesis using Drop2
    by (simp add: on_drop2_def Let_def push_new_no_duplicates)
next
  case (Change2 fs)
  assume "no_duplicates (currentFiles c)"
  then show ?thesis using Change2
    by (simp add: on_change2_def Let_def push_new_no_duplicates)
next
  case (Remove i)
  assume "no_duplicates (currentFiles c)"
  then show ?thesis using Remove
    by (simp add: removeFileAt_def Let_def no_duplicates_remove)
next
  case Reset
  then show ?thesis
    by (simp add: resetSelection_def restoreDropDefault_def no_duplicates_def)
next
  case (Remove2 i)
  assume "no_duplicates (currentFiles c)"
  then show ?thesis using Remove2
    by (simp add: removeFileAt2_def Let_def no_duplicates_remove)
next
  case Reset2
  then show ?thesis
    by (simp add: resetSelection2_def no_duplicates_def)
qed

lemma ui_run_no_duplicates:
  "no_duplicates (currentFiles c) \<Longrightarrow> no_duplicates (currentFiles (ui_run c evs))"
  unfolding ui_run_def
  by (induction evs arbitrary: c) (simp_all add: ui_step_no_duplicates)

lemma initial_client_second_script:
  "snd (renderFileList2
          \<lparr>currentFiles = [], inputFiles = [], fileListEl = [], statusText = [],
           resetHidden = False, dropCompact = False, dropDrag = False, resultEl = [],
           previewRequests = [], hasDataTransfer = dt\<rparr>) = initial_client dt"
  by (simp add: initial_client_def renderFileList_def renderFileList2_def restoreDropDefault_def)

lemma initial_no_duplicates: "no_duplicates (currentFiles (initial_client dt))"
  by (simp add: initial_client_def no_duplicates_def)


lemma addFiles_loop_keeps_key:
  "k \<in> file_key ` set cur \<Longrightarrow>
   filter (\<lambda>x. file_key x = k) (fst (addFiles_loop fs cur added)) = filter (\<lambda>x. file_key x = k) cur"
proof (induction fs cur added rule: addFiles_loop.induct)
  case (1 cur added)
  then show ?case by simp
next
  case (2 f fs cur added)
  let ?ext = "toLowerCase (split_dot_pop (fname f))"
  show ?case
  proof (cases "\<not> (?ext = ''ppt'' \<or> ?ext = ''pptx'') \<or> list_ex (\<lambda>e. same_file e f) cur")
    case True
    with 2 show ?thesis by (auto simp: Let_def)
  next
    case False
    then have new: "file_key f \<notin> file_key ` set cur"
      by (simp add: list_ex_same_file)
    with "2.prems" have ne: "file_key f \<noteq> k" by auto
    have "k \<in> file_key ` set (cur @ [f])" using "2.prems" by auto
    with 2 False have "filter (\<lambda>x. file_key x = k) (fst (addFiles_loop fs (cur @ [f]) (added + 1)))
                       = filter (\<lambda>x. file_key x = k) (cur @ [f])"
      by (simp add: Let_def)
    with False ne show ?thesis by (auto simp: Let_def)
  qed
qed

lemma push_new_keeps_key:
  "k \<in> file_key ` set cur \<Longrightarrow>
   filter (\<lambda>x. file_key x = k) (push_new fs cur) = filter (\<lambda>x. file_key x = k) cur"
proof (induction fs cur rule: push_new.induct)
  case (1 cur)
  then show ?case by simp
next
  case (2 f fs cur)
  show ?case
  proof (cases "list_ex (\<lambda>e. same_name_size e f) cur")
    case True
    with 2 show ?thesis by simp
  next
    case False
    then have "file_key f \<notin> file_key ` set cur"
      using same_name_size_if_key by blast
    with "2.prems" have ne: "file_key f \<noteq> k" by auto
    have "k \<in> file_key ` set (cur @ [f])" using "2.prems" by auto
    with 2 False have "filter (\<lambda>x. file_key x = k) (push_new fs (cur @ [f]))
                       = filter (\<lambda>x. file_key x = k) (cur @ [f])"
      by simp
    with False ne show ?thesis by simp
  qed
qed

lemma add_keeps_key:
  assumes "is_add ev" and "k \<in> file_key ` set (currentFiles c)"
  shows "filter (\<lambda>x. file_key x = k) (currentFiles (ui_step c ev))
         = filter (\<lambda>x. file_key x = k) (currentFiles c)"
  using assms
  by (cases ev)
     (simp_all add: on_drop_def on_change_def on_drop2_def on_change2_def Let_def
        currentFiles_addFiles addFiles_loop_keeps_key push_new_keeps_key)


text \<open>
  Claim C8. Whatever the user drops, picks, removes or resets, in any order and with
  the listeners of either script, \<open>currentFiles\<close> never holds two entries that agree
  on name, size and modification time. And when the list already holds an entry with
  the name, size and modification time of a file, no drop or pick changes the entries
  with that key: the incoming file is not added.
\<close>

theorem client_file_list_no_duplicates:
  "no_duplicates (currentFiles (ui_run (initial_client dt) evs)) \<and>
   (is_add ev \<and> file_key f \<in> file_key ` set (currentFiles c) \<longrightarrow>
      filter (\<lambda>x. file_key x = file_key f) (currentFiles (ui_step c ev))
      = filter (\<lambda>x. file_key x = file_key f) (currentFiles c))"
  using ui_run_no_duplicates[OF initial_no_duplicates] add_keeps_key by blast

theorem client_file_list_no_duplicates_witness:
  "currentFiles (ui_run (initial_client True) [Drop [deck_a, deck_b]]) = [deck_a, deck_b] \<and>
   no_duplicates (currentFiles (ui_run (initial_client True) [Drop [deck_a, deck_b], Change [deck_a_copy]])) \<and>
   is_add (Change [deck_a_copy]) \<and>
   file_key deck_a_copy \<in> file_key ` set [deck_a, deck_b] \<and>
   filter (\<lambda>x. file_key x = file_key deck_a_copy)
     (currentFiles (ui_run (initial_client True) [Drop [deck_a, deck_b], Change [deck_a_copy]])) = [deck_a] \<and>
   deck_a_copy \<noteq> deck_a"
proof -
  let ?c = "ui_run (initial_client True) [Drop [deck_a, deck_b]]"
  have run: "currentFiles ?c = [deck_a, deck_b]"
    by code_simp
  have key: "file_key deck_a_copy \<in> file_key ` set (currentFiles ?c)"
    unfolding run by (simp add: file_key_def deck_a_def deck_a_copy_def)
  have step: "ui_run (initial_client True) [Drop [deck_a, deck_b], Change [deck_a_copy]]
              = ui_step ?c (Change [deck_a_copy])"
    by (simp add: ui_run_def)
  have ne: "deck_a_copy \<noteq> deck_a"
    by (simp add: deck_a_def deck_a_copy_def)
  have flt: "filter (\<lambda>x. file_key x = file_key deck_a_copy) [deck_a, deck_b] = [deck_a]"
    by (simp add: file_key_def deck_a_def deck_a_copy_def deck_b_def)
  note th = client_file_list_no_duplicates
         [of True "[Drop [deck_a, deck_b], Change [deck_a_copy]]" "Change [deck_a_copy]" deck_a_copy ?c]
  from th have nd: "no_duplicates (currentFiles
      (ui_run (initial_client True) [Drop [deck_a, deck_b], Change [deck_a_copy]]))"
    by (rule conjunct1)
  from th key have "filter (\<lambda>x. file_key x = file_key deck_a_copy) (currentFiles (ui_step ?c (Change [deck_a_copy])))
      = filter (\<lambda>x. file_key x = file_key deck_a_copy) (currentFiles ?c)"
    by simp
  then have kept: "filter (\<lambda>x. file_key x = file_key deck_a_copy)
     (currentFiles (ui_run (initial_client True) [Drop [deck_a, deck_b], Change [deck_a_copy]])) = [deck_a]"
    unfolding step run flt .
  have key': "file_key deck_a_copy \<in> file_key ` set [deck_a, deck_b]"
    using key unfolding run .
  show ?thesis
    using run nd key' kept ne by simp
qed


text \<open>
  Claim C10. \<open>removeFileAt\<close>, in either script, with an index that is negative, or at
  least the length of the list, returns at once: the list, the hidden input, the
  rendered tiles, the status line, the buttons and the preview requests are all as
  they were.
\<close>

theorem removeFileAt_out_of_range:
  "index < 0 \<or> index \<ge> int (length (currentFiles c)) \<Longrightarrow>
     removeFileAt index c = c \<and> removeFileAt2 index c = c"
  by (simp add: removeFileAt_def removeFileAt2_def)

theorem removeFileAt_out_of_range_witness:
  "length (currentFiles (ui_run (initial_client True) [Drop [deck_a, deck_b]])) = 2 \<and>
   removeFileAt 2 (ui_run (initial_client True) [Drop [deck_a, deck_b]])
     = ui_run (initial_client True) [Drop [deck_a, deck_b]] \<and>
   removeFileAt (- 1) (ui_run (initial_client True) [Drop [deck_a, deck_b]])
     = ui_run (initial_client True) [Drop [deck_a, deck_b]] \<and>
   removeFileAt2 2 (ui_run (initial_client True) [Drop [deck_a, deck_b]])
     = ui_run (initial_client True) [Drop [deck_a, deck_b]] \<and>
   currentFiles (removeFileAt 1 (ui_run (initial_client True) [Drop [deck_a, deck_b]])) = [deck_a]"
proof -
  let ?c = "ui_run (initial_client True) [Drop [deck_a, deck_b]]"
  have run: "currentFiles ?c = [deck_a, deck_b]"
    by code_simp
  have len: "length (currentFiles ?c) = 2"
    unfolding run by simp
  have hi: "removeFileAt 2 ?c = ?c"
    using removeFileAt_out_of_range [of 2 ?c] len by simp
  have lo: "removeFileAt (- 1) ?c = ?c"
    using removeFileAt_out_of_range [of "- 1" ?c] by simp
  have hi2: "removeFileAt2 2 ?c = ?c"
    using removeFileAt_out_of_range [of 2 ?c] len by simp
  have mid: "currentFiles (removeFileAt 1 ?c) = [deck_a]"
    by (simp add: removeFileAt_def Let_def run)
  from len hi lo hi2 mid show ?thesis by simp
qed

section \<open>Properties of the file system\<close>

lemma filter_absent:
  "map_of es n = None \<Longrightarrow> filter (\<lambda>e. fst e \<noteq> n) es = es"
  by (induction es) (auto split: if_splits)

lemma try_unlink_apply:
  "try_unlink p fs d =
     (if d = fst p then map_option (filter (\<lambda>e. fst e \<noteq> snd p)) (fs d) else fs d)"
  by (auto simp: try_unlink_def unlinkSync_def filter_absent split: option.splits)

lemma fold_unlink_apply:
  "foldl (\<lambda>a file. try_unlink (dir, file) a) fs ns d =
     (if d = dir then map_option (filter (\<lambda>e. fst e \<notin> set ns)) (fs d) else fs d)"
proof (induction ns arbitrary: fs)
  case Nil
  then show ?case by (cases "fs d") auto
next
  case (Cons n ns)
  have "foldl (\<lambda>a file. try_unlink (dir, file) a) fs (n # ns) d
        = foldl (\<lambda>a file. try_unlink (dir, file) a) (try_unlink (dir, n) fs) ns d"
    by simp
  also have "\<dots> = (if d = dir
                    then map_option (filter (\<lambda>e. fst e \<notin> set ns)) (try_unlink (dir, n) fs d)
                    else try_unlink (dir, n) fs d)"
    by (rule Cons.IH)
  also have "\<dots> = (if d = dir then map_option (filter (\<lambda>e. fst e \<notin> set (n # ns))) (fs d) else fs d)"
    by (cases "fs dir") (auto simp: try_unlink_apply intro: filter_cong)
  finally show ?case .
qed

lemma cleanup_apply: "cleanup dir fs d = (if d = dir then None else fs d)"
proof (cases "fs dir")
  case None
  then show ?thesis by (simp add: cleanup_def)
next
  case (Some es)
  let ?fs1 = "foldl (\<lambda>a file. try_unlink (dir, file) a) fs (sort (map fst es))"
  have "filter (\<lambda>e. fst e \<notin> set (sort (map fst es))) es = []"
    by (auto simp: filter_empty_conv)
  then have emptied: "?fs1 dir = Some []"
    using Some by (simp add: fold_unlink_apply)
  have other: "?fs1 d = fs d" if "d \<noteq> dir"
    using that by (simp add: fold_unlink_apply)
  show ?thesis
    using Some emptied other
    by (auto simp: cleanup_def readdirSync_def rmdirSync_def Let_def)
qed

lemma mkdirSync_apply:
  "mkdirSync d fs d' = (if d' = d then Some (case fs d of None \<Rightarrow> [] | Some es \<Rightarrow> es) else fs d')"
  by (auto simp: mkdirSync_def split: option.splits)


section \<open>What POST /convert does to the registries and the scratch directory\<close>

lemma registry_unchanged_refl [simp]: "registry_unchanged s s"
  by (simp add: registry_unchanged_def)

lemma registry_unchanged_trans:
  "registry_unchanged s s1 \<Longrightarrow> registry_unchanged s1 s2 \<Longrightarrow> registry_unchanged s s2"
  by (simp add: registry_unchanged_def)

lemma registry_unchanged_dirs [simp]:
  "registry_unchanged s (s'\<lparr>dirs := d\<rparr>) = registry_unchanged s s'"
  "registry_unchanged (s\<lparr>dirs := d\<rparr>) s' = registry_unchanged s s'"
  by (simp_all add: registry_unchanged_def)

lemma registry_unchanged_spawned [simp]:
  "registry_unchanged s (s'\<lparr>spawned := l\<rparr>) = registry_unchanged s s'"
  by (simp add: registry_unchanged_def)

lemma convertWithSoffice_registry:
  "registry_unchanged s (snd (convertWithSoffice soffice p workdir ms s))"
  by (simp add: convertWithSoffice_def Let_def split: proc.splits)

lemma convert_each_registry:
  "registry_unchanged s (snd (convert_each soffice workdir files s))"
proof (induction files arbitrary: s)
  case Nil
  then show ?case by simp
next
  case (Cons f files)
  obtain r s1 where c: "convertWithSoffice soffice (workdir, originalname f) workdir 150000 s = (r, s1)"
    by (cases "convertWithSoffice soffice (workdir, originalname f) workdir 150000 s")
  then have u: "registry_unchanged s s1"
    using convertWithSoffice_registry[of s soffice "(workdir, originalname f)" workdir 150000] by simp
  show ?case
  proof (cases r)
    case (Inl msg)
    with c u show ?thesis by simp
  next
    case (Inr code)
    with c have "convert_each soffice workdir (f # files) s = convert_each soffice workdir files s1"
      by simp
    with u Cons.IH[of s1] show ?thesis
      by (auto intro: registry_unchanged_trans)
  qed
qed

lemma convert_each_early:
  "convert_each soffice workdir files s = (Some resp, s') \<Longrightarrow>
     status resp = 500 \<and> dirs s' workdir = None"
proof (induction files arbitrary: s)
  case Nil
  then show ?case by simp
next
  case (Cons f files)
  obtain r s1 where c: "convertWithSoffice soffice (workdir, originalname f) workdir 150000 s = (r, s1)"
    by (cases "convertWithSoffice soffice (workdir, originalname f) workdir 150000 s")
  show ?case
  proof (cases r)
    case (Inl msg)
    with c Cons.prems show ?thesis by (auto simp: cleanup_apply)
  next
    case (Inr code)
    with c Cons.prems have "convert_each soffice workdir files s1 = (Some resp, s')"
      by simp
    then show ?thesis by (rule Cons.IH)
  qed
qed

lemma convertWithSoffice_result:
  "fst (convertWithSoffice soffice (workdir, originalname f) workdir 150000 s) =
     (case proc (soffice (convert_args workdir f)) of
        SpawnError msg \<Rightarrow> Inl msg
      | Closes t code \<Rightarrow> if t < 150000 then Inr code else Inl ''Conversion timeout'')"
  by (simp add: convertWithSoffice_def convert_args_def Let_def split: proc.splits)

lemma convert_each_rejected:
  "\<exists>f\<in>set files. rejected (soffice (convert_args workdir f)) \<Longrightarrow>
     fst (convert_each soffice workdir files s) \<noteq> None"
proof (induction files arbitrary: s)
  case Nil
  then show ?case by simp
next
  case (Cons f files)
  obtain r s1 where c: "convertWithSoffice soffice (workdir, originalname f) workdir 150000 s = (r, s1)"
    by (cases "convertWithSoffice soffice (workdir, originalname f) workdir 150000 s")
  show ?case
  proof (cases r)
    case (Inl msg)
    with c show ?thesis by simp
  next
    case (Inr code)
    with c convertWithSoffice_result[of soffice workdir f s]
    have "\<not> rejected (soffice (convert_args workdir f))"
      by (auto simp: rejected_def timed_out_def failed_to_start_def split: proc.splits if_splits)
    with Cons.prems have "\<exists>f\<in>set files. rejected (soffice (convert_args workdir f))"
      by auto
    then have "fst (convert_each soffice workdir files s1) \<noteq> None"
      by (rule Cons.IH)
    with c Inr show ?thesis by simp
  qed
qed

lemma convert_prepare_Threw:
  "convert_prepare soffice files workdir s = Threw s1 \<Longrightarrow> registry_unchanged s s1"
  by (auto simp: convert_prepare_def Let_def split: prod.splits option.splits)

lemma convert_prepare_Done:
  "convert_prepare soffice files workdir s = Done (r, s2) \<Longrightarrow> registry_unchanged s s2"
proof -
  assume a: "convert_prepare soffice files workdir s = Done (r, s2)"
  then obtain d where "convert_each soffice workdir files (s\<lparr>dirs := d\<rparr>) = (r, s2)"
    by (auto simp: convert_prepare_def Let_def split: prod.splits option.splits)
  with convert_each_registry[of "s\<lparr>dirs := d\<rparr>" soffice workdir files]
  show ?thesis by simp
qed

lemma convert_prepare_early:
  "convert_prepare soffice files workdir s = Done (Some resp, s2) \<Longrightarrow>
     status resp = 500 \<and> dirs s2 workdir = None"
  by (auto simp: convert_prepare_def Let_def split: prod.splits option.splits
           dest: convert_each_early)

lemma convert_prepare_rejected:
  "\<exists>f\<in>set files. rejected (soffice (convert_args workdir f)) \<Longrightarrow>
     convert_prepare soffice files workdir s \<noteq> Done (None, s2)"
proof
  assume r: "\<exists>f\<in>set files. rejected (soffice (convert_args workdir f))"
     and a: "convert_prepare soffice files workdir s = Done (None, s2)"
  from a obtain d where "convert_each soffice workdir files (s\<lparr>dirs := mkdirSync workdir (dirs s), dirs := d\<rparr>) = (None, s2)"
    by (auto simp: convert_prepare_def Let_def split: prod.splits option.splits)
  with convert_each_rejected[OF r] show False
    by (metis fst_conv)
qed

lemma convert_collect_Threw:
  "convert_collect ch workdir s2 = Threw s3 \<Longrightarrow> registry_unchanged s2 s3"
  by (auto simp: convert_collect_def Let_def split: sum.splits list.splits option.splits)

lemma convert_collect_Done:
  "convert_collect ch workdir s2 = Done (resp, s') \<Longrightarrow>
     dirs s' workdir = None \<and>
     (status resp = 500 \<and> registry_unchanged s2 s' \<or> status resp = 200 \<and> registered ch s2 s')"
  by (auto simp: convert_collect_def Let_def cleanup_apply registered_def register_generated_def
        registry_unchanged_def
      split: sum.splits list.splits option.splits)


lemma registered_after_unchanged:
  "registry_unchanged s s2 \<Longrightarrow> registered ch s2 s' \<Longrightarrow> registered ch s s'"
  by (simp add: registry_unchanged_def registered_def)

lemma convert_try_Threw:
  "convert_try soffice ch files workdir s = Threw s1 \<Longrightarrow> registry_unchanged s s1"
  by (auto simp: convert_try_def split: tried.splits prod.splits option.splits
      dest: convert_prepare_Threw convert_prepare_Done convert_collect_Threw
      intro: registry_unchanged_trans)

lemma convert_try_Done:
  assumes "convert_try soffice ch files workdir s = Done (resp, s')"
  shows "dirs s' workdir = None \<and>
         (status resp = 500 \<and> registry_unchanged s s' \<or> status resp = 200 \<and> registered ch s s')"
proof (cases "convert_prepare soffice files workdir s")
  case (Threw s1)
  with assms show ?thesis by (simp add: convert_try_def)
next
  case (Done p)
  obtain r s2 where p: "p = (r, s2)" by (cases p)
  from Done p have u: "registry_unchanged s s2" by (auto dest: convert_prepare_Done)
  show ?thesis
  proof (cases r)
    case None
    with assms Done p have "convert_collect ch workdir s2 = Done (resp, s')"
      by (simp add: convert_try_def)
    from convert_collect_Done[OF this] u show ?thesis
      by (auto intro: registry_unchanged_trans registered_after_unchanged)
  next
    case (Some early)
    with assms Done p have "resp = early" "s' = s2" by (simp_all add: convert_try_def)
    with Done p Some u convert_prepare_early[of soffice files workdir s early s2]
    show ?thesis by simp
  qed
qed

lemma convert_handler_cases:
  assumes "convert_handler soffice ch files s = (resp, s')"
  shows "(files = [] \<and> resp = Response 400 (JsonError ''No files uploaded.'') \<and> s' = s) \<or>
         (files \<noteq> [] \<and> dirs s' (convert_workdir ch) = None \<and>
          (status resp = 500 \<and> registry_unchanged s s' \<or> status resp = 200 \<and> registered ch s s'))"
proof (cases "files = []")
  case True
  with assms show ?thesis by (auto simp: convert_handler_def)
next
  case False
  show ?thesis
  proof (cases "convert_try soffice ch files (convert_workdir ch) s")
    case (Threw s1)
    with assms False convert_try_Threw[OF Threw] show ?thesis
      by (auto simp: convert_handler_def Let_def cleanup_apply)
  next
    case (Done r)
    with assms False have "convert_try soffice ch files (convert_workdir ch) s = Done (resp, s')"
      by (simp add: convert_handler_def Let_def)
    from convert_try_Done[OF this] False show ?thesis by simp
  qed
qed

lemma post_convert_cases:
  assumes "post_convert soffice ch files s = (resp, s')"
  shows "(\<exists>msg. multer_scan 50 files = Some msg \<and> resp = Response 500 (ErrorPage msg) \<and> s' = s) \<or>
         (multer_scan 50 files = None \<and> files = [] \<and>
            resp = Response 400 (JsonError ''No files uploaded.'') \<and> s' = s) \<or>
         (multer_scan 50 files = None \<and> files \<noteq> [] \<and> dirs s' (convert_workdir ch) = None \<and>
          (status resp = 500 \<and> registry_unchanged s s' \<or> status resp = 200 \<and> registered ch s s'))"
proof (cases "multer_scan 50 files")
  case (Some msg)
  with assms show ?thesis by (auto simp: post_convert_def with_upload_def)
next
  case None
  with assms have h: "convert_handler soffice ch files (s\<lparr>dirs := store_uploads files (dirs s)\<rparr>) = (resp, s')"
    by (simp add: post_convert_def with_upload_def)
  from convert_handler_cases[OF h] None show ?thesis
    by (auto simp: store_uploads_def registered_def)
qed

lemma post_convert_rejected:
  assumes "post_convert soffice ch files s = (resp, s')"
      and "multer_scan 50 files = None"
      and "\<exists>f\<in>set files. rejected (soffice (convert_args (convert_workdir ch) f))"
  shows "status resp = 500 \<and> registry_unchanged s s' \<and> dirs s' (convert_workdir ch) = None"
proof -
  let ?s0 = "s\<lparr>dirs := store_uploads files (dirs s)\<rparr>"
  let ?wd = "convert_workdir ch"
  from assms(3) have ne: "files \<noteq> []" by auto
  from assms(1,2) have h: "convert_handler soffice ch files ?s0 = (resp, s')"
    by (simp add: post_convert_def with_upload_def)
  show ?thesis
  proof (cases "convert_prepare soffice files ?wd ?s0")
    case (Threw s1)
    with h ne convert_prepare_Threw[OF Threw] show ?thesis
      by (auto simp: convert_handler_def convert_try_def Let_def cleanup_apply)
  next
    case (Done p)
    obtain r s2 where p: "p = (r, s2)" by (cases p)
    with Done convert_prepare_rejected[OF assms(3), of ?s0 s2] obtain early where r: "r = Some early"
      by (cases r) auto
    with Done p h ne have "resp = early" "s' = s2"
      by (simp_all add: convert_handler_def convert_try_def Let_def)
    with Done p r convert_prepare_early[of soffice files ?wd ?s0 early s2]
         convert_prepare_Done[of soffice files ?wd ?s0 r s2]
    show ?thesis by simp
  qed
qed

section \<open>Properties of the expiry timers and of the GET handlers\<close>

lemma map_of_filter_removed: "map_of (filter (\<lambda>e. fst e \<noteq> n) es) n = None"
  by (induction es) auto

lemma map_of_put_entry: "map_of (put_entry n v es) n = Some v"
  by (simp add: put_entry_def map_add_def map_of_filter_removed)

lemma existsSync_try_unlink: "\<not> existsSync p (try_unlink p fs)"
  by (cases "fs (fst p)")
     (simp_all add: existsSync_def try_unlink_apply map_of_filter_removed)


lemma fire_generatedFiles:
  "generatedFiles (fire a s) i =
     (if \<exists>p. a = ExpireGenerated i p then None else generatedFiles s i)"
  by (cases a) auto

lemma fire_previewFiles:
  "previewFiles (fire a s) i =
     (if \<exists>p. a = ExpirePreview i p then None else previewFiles s i)"
  by (cases a) auto

lemma fire_other [simp]:
  "timers (fire a s) = timers s" "clock (fire a s) = clock s" "spawned (fire a s) = spawned s"
  "exited (fire a s) = exited s"
  by (cases a; simp)+

lemma fire_dirs: "dirs (fire a s) = try_unlink (timer_path a) (dirs s)"
  by (cases a) simp_all

lemma fire_all_generatedFiles:
  "generatedFiles (foldl (\<lambda>a tm. fire (snd tm) a) s tms) i =
     (if \<exists>d p. (d, ExpireGenerated i p) \<in> set tms then None else generatedFiles s i)"
proof (induction tms arbitrary: s)
  case Nil
  then show ?case by simp
next
  case (Cons tm tms)
  show ?case
    by (cases tm) (auto simp: Cons fire_generatedFiles)
qed

lemma fire_all_previewFiles:
  "previewFiles (foldl (\<lambda>a tm. fire (snd tm) a) s tms) i =
     (if \<exists>d p. (d, ExpirePreview i p) \<in> set tms then None else previewFiles s i)"
proof (induction tms arbitrary: s)
  case Nil
  then show ?case by simp
next
  case (Cons tm tms)
  show ?case
    by (cases tm) (auto simp: Cons fire_previewFiles)
qed

lemma fire_all_other [simp]:
  "timers (foldl (\<lambda>a tm. fire (snd tm) a) s tms) = timers s"
  "clock (foldl (\<lambda>a tm. fire (snd tm) a) s tms) = clock s"
  "spawned (foldl (\<lambda>a tm. fire (snd tm) a) s tms) = spawned s"
  "exited (foldl (\<lambda>a tm. fire (snd tm) a) s tms) = exited s"
  by (induction tms arbitrary: s; simp)+



lemma advance_timers: "timers (advance t s) = filter (\<lambda>tm. \<not> fst tm \<le> t) (timers s)"
  by (simp add: advance_def Let_def)

lemma advance_clock: "clock (advance t s) = max (clock s) t"
  by (simp add: advance_def Let_def)

lemma advance_exited: "exited (advance t s) = exited s"
  by (simp add: advance_def Let_def)

lemma advance_generatedFiles:
  "generatedFiles (advance t s) i =
     (if \<exists>d p. (d, ExpireGenerated i p) \<in> set (timers s) \<and> d \<le> t then None
      else generatedFiles s i)"
  by (auto simp: advance_def Let_def fire_all_generatedFiles)

lemma advance_previewFiles:
  "previewFiles (advance t s) i =
     (if \<exists>d p. (d, ExpirePreview i p) \<in> set (timers s) \<and> d \<le> t then None
      else previewFiles s i)"
  by (auto simp: advance_def Let_def fire_all_previewFiles)



lemma preview_pdf_close_registry:
  "registry_unchanged s (snd (preview_pdf_close tr workdir s))"
  by (auto simp: preview_pdf_close_def Let_def registry_unchanged_def
           split: list.splits sum.splits)

lemma process_exit_ended:
  "registry_unchanged s s1 \<Longrightarrow> process_ended s (process_exit s1)"
  by (simp add: registry_unchanged_def process_ended_def process_exit_def)

lemma preview_pdf_handler_registry:
  "registry_unchanged s (snd (preview_pdf_handler soffice ch files s)) \<or>
   process_ended s (snd (preview_pdf_handler soffice ch files s))"
proof (cases files)
  case Nil
  then show ?thesis by (simp add: preview_pdf_handler_def)
next
  case (Cons f rest)
  let ?wd = "tmpdir @ ''/ppt_preview_pdf_'' @ uuid1 ch"
  let ?s1 = "s\<lparr>dirs := mkdirSync ?wd (dirs s)\<rparr>"
  show ?thesis
  proof (cases "renameSync (upload_path f) (?wd, originalname f) (dirs ?s1)")
    case (Inl e)
    with Cons show ?thesis
      by (simp add: preview_pdf_handler_def Let_def registry_unchanged_def)
  next
    case (Inr d)
    let ?args = "soffice_args ''pdf'' ?wd (path_string (?wd, originalname f))"
    let ?s2 = "?s1\<lparr>dirs := d, spawned := spawned ?s1 @ [?args]\<rparr>"
    show ?thesis
    proof (cases "proc (soffice ?args)")
      case (SpawnError msg)
      have "registry_unchanged s
              (snd (preview_pdf_close (soffice ?args) ?wd (?s2\<lparr>dirs := cleanup ?wd (dirs ?s2)\<rparr>)))"
        using preview_pdf_close_registry[of "?s2\<lparr>dirs := cleanup ?wd (dirs ?s2)\<rparr>" "soffice ?args" ?wd]
        by (simp add: registry_unchanged_def)
      then have "process_ended s
              (process_exit (snd (preview_pdf_close (soffice ?args) ?wd
                                    (?s2\<lparr>dirs := cleanup ?wd (dirs ?s2)\<rparr>))))"
        by (rule process_exit_ended)
      with Cons Inr SpawnError show ?thesis
        by (simp add: preview_pdf_handler_def Let_def)
    next
      case (Closes t code)
      have "registry_unchanged s
              (snd (preview_pdf_close (soffice ?args) ?wd
                      (?s2\<lparr>dirs := write_outputs ?wd (wrote (soffice ?args)) (dirs ?s2)\<rparr>)))"
        using preview_pdf_close_registry
                [of "?s2\<lparr>dirs := write_outputs ?wd (wrote (soffice ?args)) (dirs ?s2)\<rparr>"
                    "soffice ?args" ?wd]
        by (simp add: registry_unchanged_def)
      with Cons Inr Closes show ?thesis
        by (simp add: preview_pdf_handler_def Let_def)
    qed
  qed
qed

lemma post_preview_pdf_registry:
  "registry_unchanged s (snd (post_preview_pdf soffice ch files s)) \<or>
   process_ended s (snd (post_preview_pdf soffice ch files s))"
proof (cases "multer_scan 1 files")
  case None
  with preview_pdf_handler_registry[of "s\<lparr>dirs := store_uploads files (dirs s)\<rparr>" soffice ch files]
  show ?thesis
    by (simp add: post_preview_pdf_def with_upload_def registry_unchanged_def process_ended_def)
next
  case (Some msg)
  then show ?thesis by (simp add: post_preview_pdf_def with_upload_def)
qed

lemma preview_close_registry:
  "preview_close tr ch workdir s = (resp, s') \<Longrightarrow>
     status resp \<noteq> 200 \<and> registry_unchanged s s' \<or> status resp = 200 \<and> preview_registered ch s s'"
  by (auto simp: preview_close_def Let_def registry_unchanged_def preview_registered_def
        register_preview_def
      split: list.splits sum.splits)

lemma preview_close_clock:
  "clock (snd (preview_close tr ch workdir s)) = clock s"
  using preview_close_registry[of tr ch workdir s "fst (preview_close tr ch workdir s)"
          "snd (preview_close tr ch workdir s)"]
  by (auto simp: registry_unchanged_def preview_registered_def)

lemma preview_handler_registry:
  assumes "preview_handler soffice ch files s = (resp, s')"
  shows "status resp \<noteq> 200 \<and> (registry_unchanged s s' \<or> process_ended s s') \<or>
         status resp = 200 \<and> preview_registered ch s s'"
proof (cases files)
  case Nil
  with assms show ?thesis by (auto simp: preview_handler_def)
next
  case (Cons f rest)
  let ?wd = "tmpdir @ ''/ppt_preview_'' @ uuid1 ch"
  let ?s1 = "s\<lparr>dirs := mkdirSync ?wd (dirs s)\<rparr>"
  show ?thesis
  proof (cases "renameSync (upload_path f) (?wd, originalname f) (dirs ?s1)")
    case (Inl e)
    with Cons assms show ?thesis
      by (auto simp: preview_handler_def Let_def registry_unchanged_def)
  next
    case (Inr d)
    let ?args = "soffice_args ''png'' ?wd (path_string (?wd, originalname f))"
    let ?s2 = "?s1\<lparr>dirs := d, spawned := spawned ?s1 @ [?args]\<rparr>"
    show ?thesis
    proof (cases "proc (soffice ?args)")
      case (SpawnError msg)
      let ?s3 = "?s2\<lparr>dirs := cleanup ?wd (dirs ?s2)\<rparr>"
      from Cons Inr SpawnError assms
      have r: "resp = Response 500 (JsonErrorDetail ''Failed to start LibreOffice (soffice).'' msg)"
        and s': "s' = process_exit (snd (preview_close (soffice ?args) ch ?wd ?s3))"
        by (simp_all add: preview_handler_def Let_def)
      have "process_ended s s'"
        unfolding s' by (simp add: process_ended_def process_exit_def preview_close_clock)
      with r show ?thesis by simp
    next
      case (Closes t code)
      let ?s3 = "?s2\<lparr>dirs := write_outputs ?wd (wrote (soffice ?args)) (dirs ?s2)\<rparr>"
      from Cons Inr Closes assms
      have "preview_close (soffice ?args) ch ?wd ?s3 = (resp, s')"
        by (simp add: preview_handler_def Let_def)
      from preview_close_registry[OF this] show ?thesis
        by (auto simp: registry_unchanged_def preview_registered_def)
    qed
  qed
qed

lemma post_preview_registry:
  assumes "post_preview soffice ch files s = (resp, s')"
  shows "status resp \<noteq> 200 \<and> (registry_unchanged s s' \<or> process_ended s s') \<or>
         status resp = 200 \<and> preview_registered ch s s'"
proof (cases "multer_scan 1 files")
  case None
  with assms have "preview_handler soffice ch files (s\<lparr>dirs := store_uploads files (dirs s)\<rparr>) = (resp, s')"
    by (simp add: post_preview_def with_upload_def)
  from preview_handler_registry[OF this] show ?thesis
    by (auto simp: preview_registered_def registry_unchanged_def process_ended_def)
next
  case (Some msg)
  with assms show ?thesis by (auto simp: post_preview_def with_upload_def)
qed

lemma get_download_cases:
  assumes "get_download ident s = (resp, s')"
  shows "(resp = Response 404 (Text ''File not found or expired.'') \<and> s' = s \<and>
            (generatedFiles s ident = None \<or>
             (\<exists>info. generatedFiles s ident = Some info \<and> \<not> existsSync (path info) (dirs s)))) \<or>
         (\<exists>info. generatedFiles s ident = Some info \<and> existsSync (path info) (dirs s) \<and>
            resp = Response 200 (Download (path info)
                     (if downloadName info = [] then snd (path info) else downloadName info)) \<and>
            s' = download_finished ident info s)"
  using assms
  by (auto simp: get_download_def Let_def split: option.splits if_splits)

lemma get_preview_cases:
  assumes "get_preview ident s = (resp, s')"
  shows "s' = s \<and>
         ((resp = Response 404 (Text ''Preview not found or expired.'') \<and>
            (previewFiles s ident = None \<or>
             (\<exists>p. previewFiles s ident = Some p \<and> \<not> existsSync p (dirs s)))) \<or>
          (\<exists>p. previewFiles s ident = Some p \<and> existsSync p (dirs s) \<and>
            resp = Response 200 (SentFile p)))"
  using assms
  by (auto simp: get_preview_def Let_def split: option.splits if_splits)

text \<open>What any request does to the clock, the timers and the registry of artifacts.\<close>

lemma route_summary:
  assumes "route soffice r s = (resp, s')"
  shows "process_ended s s' \<or>
         (exited s' = exited s \<and> clock s' = clock s \<and>
          (timers s' = timers s \<or> (\<exists>a. timers s' = timers s @ [(clock s + TTL, a)])) \<and>
          (\<forall>i. \<not> registers i (Request r) \<longrightarrow>
             generatedFiles s' i = None \<or> generatedFiles s' i = generatedFiles s i))"
proof (cases r)
  case (PostConvert ch files)
  with assms post_convert_cases[of soffice ch files s resp s'] show ?thesis
    by (auto simp: registry_unchanged_def registered_def)
next
  case (PostPreviewPdf ch files)
  with assms post_preview_pdf_registry[of s soffice ch files] show ?thesis
    by (auto simp: registry_unchanged_def)
next
  case (PostPreview ch files)
  with assms post_preview_registry[of soffice ch files s resp s'] show ?thesis
    by (auto simp: registry_unchanged_def preview_registered_def)
next
  case (GetDownload ident)
  with assms get_download_cases[of ident s resp s'] show ?thesis
    by (auto simp: download_finished_def)
next
  case (GetPreview ident)
  with assms get_preview_cases[of ident s resp s'] show ?thesis by auto
next
  case GetHealth
  with assms show ?thesis by (auto simp: get_health_def)
qed

lemma handle_summary:
  assumes "handle soffice r s = (resp, s')"
  shows "process_ended s s' \<or>
         (exited s' = exited s \<and> clock s' = clock s \<and>
          (timers s' = timers s \<or> (\<exists>a. timers s' = timers s @ [(clock s + TTL, a)])) \<and>
          (\<forall>i. \<not> registers i (Request r) \<longrightarrow>
             generatedFiles s' i = None \<or> generatedFiles s' i = generatedFiles s i))"
proof (cases "exited s")
  case True
  with assms show ?thesis by (simp add: handle_def)
next
  case False
  obtain r1 s1 where rt: "route soffice r s = (r1, s1)" by (cases "route soffice r s")
  with assms False have "s' = s1" by (simp add: handle_def)
  with route_summary[OF rt] show ?thesis by simp
qed

lemma handle_clock_timers:
  assumes "handle soffice r s = (resp, s')"
  shows "clock s' = clock s \<and>
         (timers s' = [] \<or> timers s' = timers s \<or>
          (\<exists>a. timers s' = timers s @ [(clock s + TTL, a)]))"
  using handle_summary[OF assms] by (auto simp: process_ended_def)

lemma handle_generatedFiles:
  assumes "handle soffice r s = (resp, s')" and "\<not> registers i (Request r)"
  shows "generatedFiles s' i = None \<or> generatedFiles s' i = generatedFiles s i"
  using handle_summary[OF assms(1)] assms(2) by (auto simp: process_ended_def)


lemma handle_running:
  "\<not> exited s \<Longrightarrow> handle soffice r s = (Some (fst (route soffice r s)), snd (route soffice r s))"
  by (simp add: handle_def split: prod.splits)

lemma TTL_pos: "0 < TTL"
  by (simp add: TTL_def)

lemma step_timers_pending:
  "timers_pending s \<Longrightarrow> timers_pending (step soffice s ev)"
proof (cases ev)
  case (Request r)
  assume p: "timers_pending s"
  obtain resp s' where h: "handle soffice r s = (resp, s')" by (cases "handle soffice r s")
  from handle_clock_timers[OF h] p TTL_pos have "timers_pending s'"
    by (auto simp: timers_pending_def)
  with Request h show ?thesis by simp
next
  case (Tick t)
  assume "timers_pending s"
  with Tick show ?thesis
    by (auto simp: timers_pending_def advance_timers advance_clock)
qed

lemma run_timers_pending:
  "timers_pending s \<Longrightarrow> timers_pending (run soffice s evs)"
  unfolding run_def
  by (induction evs arbitrary: s) (simp_all add: step_timers_pending)

lemma initial_timers_pending: "timers_pending initial_server"
  by (simp add: timers_pending_def initial_server_def)




section \<open>GET /download/:id and GET /preview/:id\<close>

text \<open>The definitions that evaluate a request on a concrete state.\<close>

lemmas fs_defs = existsSync_def readFileSync_def put_entry_def writeFile_def unlinkSync_def
  renameSync_def copyFileSync_def readdirSync_def rmdirSync_def mkdirSync_def try_unlink_def
  write_outputs_def write_stream_def

lemmas str_defs = toLowerChar_def toLowerCase_def endsWith_def split_dot_pop_def extname_def
  last_component_def path_string_def is_pdf_name_def is_png_name_def

lemmas srv_defs = tmpdir_def uploadsDir_def filesDir_def previewFilesDir_def TTL_def
  upload_path_def fileFilter_def store_uploads_def with_upload_def soffice_args_def
  convertWithSoffice_def register_generated_def register_preview_def zip_entries_def
  convert_prepare_def convert_collect_def convert_try_def convert_workdir_def
  convert_handler_def post_convert_def preview_close_def preview_handler_def post_preview_def
  preview_pdf_close_def preview_pdf_handler_def post_preview_pdf_def process_exit_def
  initial_server_def

lemmas example_defs = up_a_def up_b_def up_txt_def ch1_def ch2_def good_tool_def flaky_tool_def
  unsteady_tool_def slow_tool_def

lemma step_stays_unregistered:
  assumes "generatedFiles s i = None" and "\<not> registers i ev"
  shows "generatedFiles (step soffice s ev) i = None"
proof (cases ev)
  case (Request r)
  obtain resp s' where h: "handle soffice r s = (resp, s')" by (cases "handle soffice r s")
  from assms(2) Request have "\<not> registers i (Request r)" by simp
  from handle_generatedFiles[OF h this] assms(1) have "generatedFiles s' i = None" by auto
  with Request h show ?thesis by simp
next
  case (Tick t)
  with assms(1) show ?thesis by (simp add: advance_generatedFiles)
qed

lemma run_stays_unregistered:
  "generatedFiles s i = None \<Longrightarrow> \<forall>ev\<in>set evs. \<not> registers i ev \<Longrightarrow>
     generatedFiles (run soffice s evs) i = None"
  unfolding run_def
  by (induction evs arbitrary: s) (simp_all add: step_stays_unregistered)

lemma get_download_unregistered:
  "generatedFiles s ident = None \<Longrightarrow>
     get_download ident s = (Response 404 (Text ''File not found or expired.''), s)"
  by (simp add: get_download_def)

text \<open>
  Claim C9. \<open>GET /download/:id\<close> answers 404 and changes nothing when the id is not in
  the registry, and also when the registry maps the id to a path at which no file
  exists; an answer with status 200 is only given for a registered id whose file exists.
\<close>

theorem download_of_stale_entry_is_404:
  "(generatedFiles s ident = None \<longrightarrow>
      get_download ident s = (Response 404 (Text ''File not found or expired.''), s)) \<and>
   (generatedFiles s ident = Some info \<and> \<not> existsSync (path info) (dirs s) \<longrightarrow>
      get_download ident s = (Response 404 (Text ''File not found or expired.''), s)) \<and>
   (status (fst (get_download ident s)) = 200 \<longrightarrow>
      (\<exists>info. generatedFiles s ident = Some info \<and> existsSync (path info) (dirs s)))"
  by (auto simp: get_download_def Let_def split: option.splits)

theorem download_of_stale_entry_is_404_witness:
  "generatedFiles stale_server ''i1'' = Some \<lparr>path = (filesDir, ''i1.pdf''), downloadName = ''a.pdf''\<rparr> \<and>
   \<not> existsSync (filesDir, ''i1.pdf'') (dirs stale_server) \<and>
   get_download ''i1'' stale_server = (Response 404 (Text ''File not found or expired.''), stale_server) \<and>
   generatedFiles stale_server ''i2'' = None \<and>
   get_download ''i2'' stale_server = (Response 404 (Text ''File not found or expired.''), stale_server)"
proof -
  let ?info = "\<lparr>path = (filesDir, ''i1.pdf''), downloadName = ''a.pdf''\<rparr>"
  have reg: "generatedFiles stale_server ''i1'' = Some ?info"
    by (simp add: stale_server_def)
  have gone: "\<not> existsSync (filesDir, ''i1.pdf'') (dirs stale_server)"
    by (simp add: stale_server_def initial_server_def existsSync_def filesDir_def uploadsDir_def)
  have unreg: "generatedFiles stale_server ''i2'' = None"
    by (simp add: stale_server_def initial_server_def)
  note th1 = download_of_stale_entry_is_404 [of stale_server "''i1''" ?info]
  note th2 = download_of_stale_entry_is_404 [of stale_server "''i2''" ?info]
  from th1 reg gone
  have a: "get_download ''i1'' stale_server = (Response 404 (Text ''File not found or expired.''), stale_server)"
    by simp
  from th2 unreg
  have b: "get_download ''i2'' stale_server = (Response 404 (Text ''File not found or expired.''), stale_server)"
    by simp
  from reg gone a unreg b show ?thesis by simp
qed

text \<open>
  Claim C1. When \<open>GET /download/:id\<close> serves an artifact, then once the response has
  completed the file is gone and the id is no longer in the registry, whatever the
  clock shows and with the ten-minute timer still pending. A second request with the
  same id is answered 404 at once. After any later events that do not register the id
  anew it is answered 404 as well, unless the server process has ended meanwhile and
  answers nothing: the artifact is never served again.
\<close>

theorem download_is_one_time:
  assumes "get_download ident s = (resp, s')" and "status resp = 200"
  shows "(\<exists>info. generatedFiles s ident = Some info \<and> existsSync (path info) (dirs s) \<and>
                 \<not> existsSync (path info) (dirs s')) \<and>
         generatedFiles s' ident = None \<and>
         timers s' = timers s \<and> clock s' = clock s \<and>
         get_download ident s' = (Response 404 (Text ''File not found or expired.''), s') \<and>
         (\<forall>evs. (\<forall>ev\<in>set evs. \<not> registers ident ev) \<longrightarrow>
            fst (handle soffice (GetDownload ident) (run soffice s' evs))
              = (if exited (run soffice s' evs) then None
                 else Some (Response 404 (Text ''File not found or expired.''))))"
proof -
  from get_download_cases[OF assms(1)] assms(2)
  obtain info where info: "generatedFiles s ident = Some info" "existsSync (path info) (dirs s)"
      "s' = download_finished ident info s"
    by auto
  have gone: "\<not> existsSync (path info) (dirs s')"
    by (simp add: info(3) download_finished_def existsSync_try_unlink)
  have unreg: "generatedFiles s' ident = None"
    by (simp add: info(3) download_finished_def)
  have frame: "timers s' = timers s" "clock s' = clock s"
    by (simp_all add: info(3) download_finished_def)
  have later: "fst (handle soffice (GetDownload ident) (run soffice s' evs))
                 = (if exited (run soffice s' evs) then None
                    else Some (Response 404 (Text ''File not found or expired.'')))"
    if "\<forall>ev\<in>set evs. \<not> registers ident ev" for evs
    using run_stays_unregistered[OF unreg that, of soffice]
    by (simp add: handle_def get_download_unregistered)
  from info(1,2) gone unreg frame later get_download_unregistered[OF unreg]
  show ?thesis by blast
qed

lemma converted_server_entry:
  "generatedFiles converted_server ''i1''
     = Some \<lparr>path = (filesDir, ''i1.pdf''), downloadName = ''a.pdf''\<rparr>"
  by (simp add: converted_server_def fs_defs str_defs srv_defs example_defs Let_def cleanup_apply)

lemma converted_server_file:
  "existsSync (filesDir, ''i1.pdf'') (dirs converted_server)"
  by (simp add: converted_server_def fs_defs str_defs srv_defs example_defs Let_def cleanup_apply)

lemma converted_server_download:
  "fst (get_download ''i1'' converted_server)
     = Response 200 (Download (filesDir, ''i1.pdf'') ''a.pdf'')"
  by (simp add: get_download_def converted_server_entry converted_server_file Let_def)

lemma converted_server_running: "\<not> exited converted_server"
  by (simp add: converted_server_def fs_defs str_defs srv_defs example_defs Let_def cleanup_apply)

lemma downloaded_server_running: "\<not> exited (snd (get_download ''i1'' converted_server))"
  by (simp add: get_download_def converted_server_entry converted_server_file Let_def
        download_finished_def converted_server_running)

lemma downloaded_server_uploads:
  "dirs (snd (get_download ''i1'' converted_server)) uploadsDir = Some []"
  by (simp add: get_download_def converted_server_entry converted_server_file Let_def
        download_finished_def try_unlink_apply)
     (simp add: converted_server_def fs_defs str_defs srv_defs example_defs Let_def cleanup_apply)

text \<open>A preview whose tool cannot be started ends the process, whatever the state before.\<close>

lemma failed_preview_spawn_ends_process:
  assumes "dirs s uploadsDir = Some es"
  shows "exited (snd (post_preview_pdf unsteady_tool ch2 [up_b] s))"
proof -
  have m: "multer_scan 1 [up_b] = None"
    by (simp add: fileFilter_def str_defs example_defs Let_def)
  have wd: "tmpdir @ ''/ppt_preview_pdf_'' @ uuid1 ch2 \<noteq> uploadsDir"
    by (simp add: uploadsDir_def)
  have "\<exists>d. renameSync (upload_path up_b) (tmpdir @ ''/ppt_preview_pdf_'' @ uuid1 ch2, originalname up_b)
               (mkdirSync (tmpdir @ ''/ppt_preview_pdf_'' @ uuid1 ch2)
                  (store_uploads [up_b] (dirs s))) = Inr d"
    using assms wd
    by (auto simp: renameSync_def readFileSync_def unlinkSync_def writeFile_def store_uploads_def
          upload_path_def mkdirSync_apply map_of_put_entry
        split: option.splits)
  then obtain d where d: "renameSync (upload_path up_b)
               (tmpdir @ ''/ppt_preview_pdf_'' @ uuid1 ch2, originalname up_b)
               (mkdirSync (tmpdir @ ''/ppt_preview_pdf_'' @ uuid1 ch2)
                  (store_uploads [up_b] (dirs s))) = Inr d" ..
  have sp: "proc (unsteady_tool args) = SpawnError ''spawn soffice EAGAIN''"
    if "last args \<noteq> ''/tmp/ppt2pdf_w1/a.pptx''" for args
    using that by (simp add: unsteady_tool_def)
  show ?thesis
    using m d
    by (simp add: post_preview_pdf_def with_upload_def preview_pdf_handler_def Let_def
          process_exit_def sp soffice_args_def path_string_def tmpdir_def ch2_def up_b_def)
qed

theorem download_is_one_time_witness:
  "fst (get_download ''i1'' converted_server) = Response 200 (Download (filesDir, ''i1.pdf'') ''a.pdf'') \<and>
   generatedFiles (snd (get_download ''i1'' converted_server)) ''i1'' = None \<and>
   \<not> existsSync (filesDir, ''i1.pdf'') (dirs (snd (get_download ''i1'' converted_server))) \<and>
   get_download ''i1'' (snd (get_download ''i1'' converted_server))
     = (Response 404 (Text ''File not found or expired.''), snd (get_download ''i1'' converted_server)) \<and>
   fst (handle unsteady_tool (GetDownload ''i1'')
          (run unsteady_tool (snd (get_download ''i1'' converted_server)) [Tick 600000]))
     = Some (Response 404 (Text ''File not found or expired.'')) \<and>
   fst (handle unsteady_tool (GetDownload ''i1'')
          (run unsteady_tool (snd (get_download ''i1'' converted_server))
             [Request (PostPreviewPdf ch2 [up_b])]))
     = None"
proof -
  let ?r = "get_download ''i1'' converted_server"
  have pair: "?r = (fst ?r, snd ?r)" by simp
  have ok: "status (fst ?r) = 200" by (simp add: converted_server_download)
  note th = download_is_one_time [OF pair ok, of unsteady_tool]
  from th converted_server_entry
  have gone: "\<not> existsSync (filesDir, ''i1.pdf'') (dirs (snd ?r))" by auto
  from th have unreg: "generatedFiles (snd ?r) ''i1'' = None" by blast
  from th have again: "get_download ''i1'' (snd ?r)
      = (Response 404 (Text ''File not found or expired.''), snd ?r)" by blast
  have alive: "\<not> exited (run unsteady_tool (snd ?r) [Tick 600000])"
    by (simp add: run_def advance_exited downloaded_server_running)
  have ended: "exited (run unsteady_tool (snd ?r) [Request (PostPreviewPdf ch2 [up_b])])"
    using failed_preview_spawn_ends_process[OF downloaded_server_uploads]
    by (simp add: run_def handle_running downloaded_server_running)
  from th have "(\<forall>ev\<in>set [Tick 600000]. \<not> registers ''i1'' ev) \<longrightarrow>
      fst (handle unsteady_tool (GetDownload ''i1'') (run unsteady_tool (snd ?r) [Tick 600000]))
        = (if exited (run unsteady_tool (snd ?r) [Tick 600000]) then None
           else Some (Response 404 (Text ''File not found or expired.'')))" by blast
  with alive have later: "fst (handle unsteady_tool (GetDownload ''i1'')
        (run unsteady_tool (snd ?r) [Tick 600000]))
        = Some (Response 404 (Text ''File not found or expired.''))" by simp
  from th have "(\<forall>ev\<in>set [Request (PostPreviewPdf ch2 [up_b])]. \<not> registers ''i1'' ev) \<longrightarrow>
      fst (handle unsteady_tool (GetDownload ''i1'')
             (run unsteady_tool (snd ?r) [Request (PostPreviewPdf ch2 [up_b])]))
        = (if exited (run unsteady_tool (snd ?r) [Request (PostPreviewPdf ch2 [up_b])]) then None
           else Some (Response 404 (Text ''File not found or expired.'')))" by blast
  with ended have silent: "fst (handle unsteady_tool (GetDownload ''i1'')
             (run unsteady_tool (snd ?r) [Request (PostPreviewPdf ch2 [up_b])])) = None"
    by simp
  from converted_server_download unreg gone again later silent show ?thesis by blast
qed

lemma previewed_server_entry:
  "previewFiles previewed_server ''i1'' = Some (previewFilesDir, ''i1.png'')"
  by (simp add: previewed_server_def fs_defs str_defs srv_defs example_defs Let_def cleanup_apply)

lemma previewed_server_file:
  "existsSync (previewFilesDir, ''i1.png'') (dirs previewed_server)"
  by (simp add: previewed_server_def fs_defs str_defs srv_defs example_defs Let_def cleanup_apply)

text \<open>
  Claim C2 as stated fails: \<open>GET /preview/:id\<close> does not remove what it serves. After
  one \<open>POST /preview\<close>, two requests for the preview in a row are both answered with
  the image.
\<close>

theorem preview_is_served_twice:
  "fst (post_preview good_tool ch1 [up_a] initial_server) = Response 200 (JsonPreview ''/preview/i1'') \<and>
   fst (get_preview ''i1'' previewed_server) = Response 200 (SentFile (previewFilesDir, ''i1.png'')) \<and>
   fst (get_preview ''i1'' (snd (get_preview ''i1'' previewed_server)))
     = Response 200 (SentFile (previewFilesDir, ''i1.png''))"
proof -
  have first: "get_preview ''i1'' previewed_server
                 = (Response 200 (SentFile (previewFilesDir, ''i1.png'')), previewed_server)"
    by (simp add: get_preview_def previewed_server_entry previewed_server_file)
  have post: "fst (post_preview good_tool ch1 [up_a] initial_server) = Response 200 (JsonPreview ''/preview/i1'')"
    by (simp add: fs_defs str_defs srv_defs example_defs Let_def cleanup_apply)
  from first post show ?thesis by simp
qed

text \<open>
  Claim C2, amended. \<open>GET /preview/:id\<close> changes nothing. It answers 404 for an id
  that is not in the registry of previews or whose file does not exist, and otherwise
  serves the file, again so when the request is repeated. Once the timer of the id has
  run, the answer is 404.
\<close>

theorem preview_is_served_until_expiry:
  "snd (get_preview ident s) = s \<and>
   (previewFiles s ident = None \<longrightarrow>
      fst (get_preview ident s) = Response 404 (Text ''Preview not found or expired.'')) \<and>
   (previewFiles s ident = Some p \<and> \<not> existsSync p (dirs s) \<longrightarrow>
      fst (get_preview ident s) = Response 404 (Text ''Preview not found or expired.'')) \<and>
   (previewFiles s ident = Some p \<and> existsSync p (dirs s) \<longrightarrow>
      fst (get_preview ident s) = Response 200 (SentFile p) \<and>
      fst (get_preview ident (snd (get_preview ident s))) = Response 200 (SentFile p)) \<and>
   ((d, ExpirePreview ident q) \<in> set (timers s) \<and> d \<le> t \<longrightarrow>
      fst (get_preview ident (advance t s)) = Response 404 (Text ''Preview not found or expired.''))"
proof -
  have same: "snd (get_preview ident s) = s"
    by (simp add: get_preview_def split: option.splits)
  have expired: "fst (get_preview ident (advance t s)) = Response 404 (Text ''Preview not found or expired.'')"
    if "(d, ExpirePreview ident q) \<in> set (timers s)" "d \<le> t"
  proof -
    from that have "\<exists>d p. (d, ExpirePreview ident p) \<in> set (timers s) \<and> d \<le> t"
      by blast
    then have "previewFiles (advance t s) ident = None"
      by (simp only: advance_previewFiles if_True)
    then show ?thesis by (simp add: get_preview_def)
  qed
  from same expired show ?thesis
    by (auto simp: get_preview_def)
qed

theorem preview_is_served_until_expiry_witness:
  "previewFiles previewed_server ''i1'' = Some (previewFilesDir, ''i1.png'') \<and>
   existsSync (previewFilesDir, ''i1.png'') (dirs previewed_server) \<and>
   fst (get_preview ''i1'' previewed_server) = Response 200 (SentFile (previewFilesDir, ''i1.png'')) \<and>
   fst (get_preview ''i1'' (snd (get_preview ''i1'' previewed_server)))
     = Response 200 (SentFile (previewFilesDir, ''i1.png'')) \<and>
   (600000, ExpirePreview ''i1'' (previewFilesDir, ''i1.png'')) \<in> set (timers previewed_server) \<and>
   fst (get_preview ''i1'' (advance 600000 previewed_server))
     = Response 404 (Text ''Preview not found or expired.'') \<and>
   previewFiles previewed_server ''i2'' = None \<and>
   fst (get_preview ''i2'' previewed_server) = Response 404 (Text ''Preview not found or expired.'')"
proof -
  let ?p = "(previewFilesDir, ''i1.png'')"
  have tm: "(600000, ExpirePreview ''i1'' ?p) \<in> set (timers previewed_server)"
    by (simp add: previewed_server_def fs_defs str_defs srv_defs example_defs Let_def cleanup_apply)
  have none: "previewFiles previewed_server ''i2'' = None"
    by (simp add: previewed_server_def fs_defs str_defs srv_defs example_defs Let_def cleanup_apply)
  note th = preview_is_served_until_expiry [of "''i1''" previewed_server ?p 600000 ?p 600000]
  note th2 = preview_is_served_until_expiry [of "''i2''" previewed_server ?p 600000 ?p 600000]
  from th previewed_server_entry previewed_server_file
  have served: "fst (get_preview ''i1'' previewed_server) = Response 200 (SentFile ?p)"
    "fst (get_preview ''i1'' (snd (get_preview ''i1'' previewed_server))) = Response 200 (SentFile ?p)"
    by simp_all
  from th tm have expired: "fst (get_preview ''i1'' (advance 600000 previewed_server))
     = Response 404 (Text ''Preview not found or expired.'')"
    by simp
  from th2 none have unknown: "fst (get_preview ''i2'' previewed_server)
     = Response 404 (Text ''Preview not found or expired.'')"
    by simp
  from previewed_server_entry previewed_server_file served tm expired none unknown
  show ?thesis by simp
qed

section \<open>Expiry of artifacts\<close>







lemma converted_server_response:
  "fst (post_convert good_tool ch1 [up_a] initial_server)
     = Response 200 (JsonConverted ''/download/i1'' ''a.pdf'')"
  by (simp add: fs_defs str_defs srv_defs example_defs Let_def cleanup_apply)



section \<open>Failures of the conversion\<close>

lemma convert_each_early_body:
  "convert_each soffice workdir files s = (Some resp, s') \<Longrightarrow>
     \<exists>msg. resp = Response 500 (JsonError msg)"
proof (induction files arbitrary: s)
  case Nil
  then show ?case by simp
next
  case (Cons f files)
  obtain r s1 where c: "convertWithSoffice soffice (workdir, originalname f) workdir 150000 s = (r, s1)"
    by (cases "convertWithSoffice soffice (workdir, originalname f) workdir 150000 s")
  show ?case
  proof (cases r)
    case (Inl msg)
    with c Cons.prems show ?thesis by auto
  next
    case (Inr code)
    with c Cons.prems have "convert_each soffice workdir files s1 = (Some resp, s')"
      by simp
    then show ?thesis by (rule Cons.IH)
  qed
qed

lemma post_convert_rejected_body:
  assumes "post_convert soffice ch files s = (resp, s')"
      and "multer_scan 50 files = None"
      and "\<exists>f\<in>set files. rejected (soffice (convert_args (convert_workdir ch) f))"
  shows "\<exists>msg. resp = Response 500 (JsonError msg)"
proof -
  let ?s0 = "s\<lparr>dirs := store_uploads files (dirs s)\<rparr>"
  let ?wd = "convert_workdir ch"
  from assms(3) have ne: "files \<noteq> []" by auto
  from assms(1,2) have h: "convert_handler soffice ch files ?s0 = (resp, s')"
    by (simp add: post_convert_def with_upload_def)
  show ?thesis
  proof (cases "convert_prepare soffice files ?wd ?s0")
    case (Threw s1)
    with h ne show ?thesis
      by (auto simp: convert_handler_def convert_try_def Let_def)
  next
    case (Done p)
    obtain r s2 where p: "p = (r, s2)" by (cases p)
    with Done convert_prepare_rejected[OF assms(3), of ?s0 s2] obtain early where r: "r = Some early"
      by (cases r) auto
    with Done p h ne have e: "resp = early" "s' = s2"
      by (simp_all add: convert_handler_def convert_try_def Let_def)
    from Done p r obtain d where "convert_each soffice ?wd files (?s0\<lparr>dirs := d\<rparr>) = (Some early, s2)"
      by (auto simp: convert_prepare_def Let_def split: prod.splits option.splits)
    from convert_each_early_body[OF this] e show ?thesis by simp
  qed
qed

lemma convertWithSoffice_with_exit_code:
  "convertWithSoffice (with_exit_code c soffice) p workdir ms s
     = (map_sum (\<lambda>msg. msg) (\<lambda>code. c) (fst (convertWithSoffice soffice p workdir ms s)),
        snd (convertWithSoffice soffice p workdir ms s))"
  by (simp add: convertWithSoffice_def with_exit_code_def Let_def split: proc.splits)

lemma convert_each_with_exit_code:
  "convert_each (with_exit_code c soffice) workdir files s = convert_each soffice workdir files s"
proof (induction files arbitrary: s)
  case Nil
  then show ?case by simp
next
  case (Cons f files)
  obtain r s1 where c: "convertWithSoffice soffice (workdir, originalname f) workdir 150000 s = (r, s1)"
    by (cases "convertWithSoffice soffice (workdir, originalname f) workdir 150000 s")
  then show ?case
    by (cases r) (simp_all add: convertWithSoffice_with_exit_code Cons.IH)
qed

lemma post_convert_with_exit_code:
  "post_convert (with_exit_code c soffice) ch files s = post_convert soffice ch files s"
  by (simp add: post_convert_def with_upload_def convert_handler_def convert_try_def
        convert_prepare_def convert_each_with_exit_code
      cong: option.case_cong)

lemma post_convert_no_success:
  assumes "post_convert soffice ch files s = (resp, s')" and "status resp \<noteq> 200"
  shows "registry_unchanged s s'"
  using post_convert_cases[OF assms(1)] assms(2) by auto

text \<open>
  Claim C3 as stated fails for the exit code: \<open>convertWithSoffice\<close> resolves on
  \<open>close\<close> whatever the code. The tool exits with code 1 on the first of two files
  and converts the second: the request succeeds and registers the one PDF.
\<close>

theorem nonzero_exit_is_accepted:
  "proc (flaky_tool (convert_args (convert_workdir ch1) up_a)) = Closes 1000 1 \<and>
   fst (post_convert flaky_tool ch1 [up_a, up_b] initial_server)
     = Response 200 (JsonConverted ''/download/i1'' ''b.pdf'') \<and>
   generatedFiles (snd (post_convert flaky_tool ch1 [up_a, up_b] initial_server)) ''i1''
     = Some \<lparr>path = (filesDir, ''i1.pdf''), downloadName = ''b.pdf''\<rparr>"
proof -
  have a: "proc (flaky_tool (convert_args (convert_workdir ch1) up_a)) = Closes 1000 1"
    by (simp add: flaky_tool_def convert_args_def convert_workdir_def soffice_args_def
          path_string_def tmpdir_def ch1_def up_a_def)
  have b: "fst (post_convert flaky_tool ch1 [up_a, up_b] initial_server)
     = Response 200 (JsonConverted ''/download/i1'' ''b.pdf'')"
    by (simp add: fs_defs str_defs srv_defs example_defs Let_def cleanup_apply)
  have c: "generatedFiles (snd (post_convert flaky_tool ch1 [up_a, up_b] initial_server)) ''i1''
     = Some \<lparr>path = (filesDir, ''i1.pdf''), downloadName = ''b.pdf''\<rparr>"
    by (simp add: fs_defs str_defs srv_defs example_defs Let_def cleanup_apply)
  from a b c show ?thesis by simp
qed

text \<open>
  Claim C3, amended. When the upload is accepted and the conversion of one of the
  files times out or cannot be started, \<open>POST /convert\<close> answers with status 500 and
  a JSON error message, registers nothing and removes the scratch directory. Any
  answer other than success leaves the registries as they were. The exit code of a
  conversion that closes in time plays no part in the answer or the state.
\<close>

theorem failed_conversion_registers_nothing:
  assumes "post_convert soffice ch files s = (resp, s')"
  shows "(multer_scan 50 files = None \<and>
          (\<exists>f\<in>set files. timed_out (soffice (convert_args (convert_workdir ch) f)) \<or>
                         failed_to_start (soffice (convert_args (convert_workdir ch) f))) \<longrightarrow>
            (\<exists>msg. resp = Response 500 (JsonError msg)) \<and> registry_unchanged s s' \<and>
            dirs s' (convert_workdir ch) = None) \<and>
         (status resp \<noteq> 200 \<longrightarrow> registry_unchanged s s') \<and>
         post_convert (with_exit_code c soffice) ch files s = (resp, s')"
proof -
  have rej: "(\<exists>msg. resp = Response 500 (JsonError msg)) \<and> registry_unchanged s s' \<and>
            dirs s' (convert_workdir ch) = None"
    if m: "multer_scan 50 files = None"
    and r: "\<exists>f\<in>set files. timed_out (soffice (convert_args (convert_workdir ch) f)) \<or>
                         failed_to_start (soffice (convert_args (convert_workdir ch) f))"
  proof -
    from r have r': "\<exists>f\<in>set files. rejected (soffice (convert_args (convert_workdir ch) f))"
      by (simp add: rejected_def)
    from post_convert_rejected[OF assms m r'] post_convert_rejected_body[OF assms m r']
    show ?thesis by simp
  qed
  from rej post_convert_no_success[OF assms] post_convert_with_exit_code[of c soffice ch files s] assms
  show ?thesis by simp
qed

theorem failed_conversion_registers_nothing_witness:
  "multer_scan 50 [up_a, up_b] = None \<and>
   timed_out (slow_tool (convert_args (convert_workdir ch1) up_a)) \<and>
   fst (post_convert slow_tool ch1 [up_a, up_b] initial_server)
     = Response 500 (JsonError ''Conversion failed for: a.pptx. Conversion timeout'') \<and>
   registry_unchanged initial_server (snd (post_convert slow_tool ch1 [up_a, up_b] initial_server)) \<and>
   dirs (snd (post_convert slow_tool ch1 [up_a, up_b] initial_server)) (convert_workdir ch1) = None \<and>
   post_convert (with_exit_code 0 flaky_tool) ch1 [up_a, up_b] initial_server
     = post_convert flaky_tool ch1 [up_a, up_b] initial_server"
proof -
  let ?r = "post_convert slow_tool ch1 [up_a, up_b] initial_server"
  let ?q = "post_convert flaky_tool ch1 [up_a, up_b] initial_server"
  have m: "multer_scan 50 [up_a, up_b] = None"
    by (simp add: fileFilter_def str_defs example_defs Let_def)
  have t: "timed_out (slow_tool (convert_args (convert_workdir ch1) up_a))"
    by (simp add: timed_out_def slow_tool_def)
  have pair: "?r = (fst ?r, snd ?r)" by simp
  have pairq: "?q = (fst ?q, snd ?q)" by simp
  note th = failed_conversion_registers_nothing [OF pair, of 0]
  note thq = failed_conversion_registers_nothing [OF pairq, of 0]
  have resp: "fst ?r = Response 500 (JsonError ''Conversion failed for: a.pptx. Conversion timeout'')"
    by (simp add: fs_defs str_defs srv_defs example_defs Let_def cleanup_apply)
  from th m t have "registry_unchanged initial_server (snd ?r) \<and> dirs (snd ?r) (convert_workdir ch1) = None"
    by auto
  moreover from thq have "post_convert (with_exit_code 0 flaky_tool) ch1 [up_a, up_b] initial_server = ?q"
    by simp
  ultimately show ?thesis using m t resp by simp
qed

section \<open>The scratch directory\<close>

text \<open>
  Claim C6. The state a handler returns is the state at the moment its response is
  sent. When the upload is accepted and a conversion times out, \<open>POST /convert\<close>
  answers with status 500 and the scratch directory does not exist when the response
  is sent. On every path on which the handler has made the scratch directory it has
  removed it before the response, whether that reports success or failure; on the
  others (no file, or the upload refused) nothing has been made. So a scratch
  directory that did not exist before the request does not exist after it.
\<close>

theorem scratch_directory_is_removed:
  assumes "post_convert soffice ch files s = (resp, s')"
  shows "(multer_scan 50 files = None \<and>
          (\<exists>f\<in>set files. timed_out (soffice (convert_args (convert_workdir ch) f))) \<longrightarrow>
            status resp = 500 \<and> dirs s' (convert_workdir ch) = None) \<and>
         (multer_scan 50 files = None \<and> files \<noteq> [] \<longrightarrow>
            dirs s' (convert_workdir ch) = None \<and> (status resp = 200 \<or> status resp = 500)) \<and>
         (multer_scan 50 files \<noteq> None \<or> files = [] \<longrightarrow> s' = s \<and> status resp \<noteq> 200) \<and>
         (dirs s (convert_workdir ch) = None \<longrightarrow> dirs s' (convert_workdir ch) = None)"
proof -
  have timeout: "status resp = 500 \<and> dirs s' (convert_workdir ch) = None"
    if m: "multer_scan 50 files = None"
    and t: "\<exists>f\<in>set files. timed_out (soffice (convert_args (convert_workdir ch) f))"
  proof -
    from t have "\<exists>f\<in>set files. rejected (soffice (convert_args (convert_workdir ch) f))"
      by (auto simp: rejected_def)
    from post_convert_rejected[OF assms m this] show ?thesis by simp
  qed
  from post_convert_cases[OF assms] timeout show ?thesis
    by auto
qed

theorem scratch_directory_is_removed_witness:
  "multer_scan 50 [up_a] = None \<and>
   timed_out (slow_tool (convert_args (convert_workdir ch1) up_a)) \<and>
   status (fst (post_convert slow_tool ch1 [up_a] initial_server)) = 500 \<and>
   dirs (snd (post_convert slow_tool ch1 [up_a] initial_server)) (convert_workdir ch1) = None \<and>
   status (fst (post_convert good_tool ch1 [up_a] initial_server)) = 200 \<and>
   dirs converted_server (convert_workdir ch1) = None \<and>
   convert_workdir ch1 = ''/tmp/ppt2pdf_w1''"
proof -
  let ?r = "post_convert slow_tool ch1 [up_a] initial_server"
  have m: "multer_scan 50 [up_a] = None"
    by (simp add: fileFilter_def str_defs example_defs Let_def)
  have t: "timed_out (slow_tool (convert_args (convert_workdir ch1) up_a))"
    by (simp add: timed_out_def slow_tool_def)
  have pair: "?r = (fst ?r, snd ?r)" by simp
  have pair2: "post_convert good_tool ch1 [up_a] initial_server
                = (fst (post_convert good_tool ch1 [up_a] initial_server), converted_server)"
    by (simp add: converted_server_def)
  note th = scratch_directory_is_removed [OF pair]
  note th2 = scratch_directory_is_removed [OF pair2]
  from th m t have a: "status (fst ?r) = 500 \<and> dirs (snd ?r) (convert_workdir ch1) = None"
    by auto
  from th2 m have b: "dirs converted_server (convert_workdir ch1) = None"
    by simp
  have c: "status (fst (post_convert good_tool ch1 [up_a] initial_server)) = 200"
    by (simp add: converted_server_response)
  have d: "convert_workdir ch1 = ''/tmp/ppt2pdf_w1''"
    by (simp add: convert_workdir_def tmpdir_def ch1_def)
  from m t a b c d show ?thesis by simp
qed

section \<open>Uploads with another extension\<close>

lemma multer_scan_refuses:
  "f \<in> set files \<Longrightarrow> fileFilter (originalname f) = Inl msg \<Longrightarrow> multer_scan n files \<noteq> None"
proof (induction files arbitrary: n)
  case Nil
  then show ?case by simp
next
  case (Cons g files)
  show ?case
  proof (cases "n = 0")
    case True
    then show ?thesis by simp
  next
    case False
    show ?thesis
    proof (cases "fileFilter (originalname g)")
      case (Inl m)
      with False show ?thesis by simp
    next
      case (Inr b)
      with Cons.prems have "f \<in> set files" by auto
      from Cons.IH[OF this Cons.prems(2)] False Inr show ?thesis by simp
    qed
  qed
qed

lemma multer_scan_message:
  "multer_scan n files = Some msg \<Longrightarrow>
     msg = ''Unexpected field'' \<or> msg = ''Only .ppt and .pptx files allowed''"
proof (induction files arbitrary: n)
  case Nil
  then show ?case by simp
next
  case (Cons g files)
  then show ?case
    by (auto simp: fileFilter_def Let_def split: if_splits sum.splits)
qed

lemma with_upload_refused:
  assumes "multer_scan n files \<noteq> None"
  shows "\<exists>msg. with_upload n files handler s = (Response 500 (ErrorPage msg), s) \<and>
           (msg = ''Unexpected field'' \<or> msg = ''Only .ppt and .pptx files allowed'')"
proof -
  from assms obtain msg where m: "multer_scan n files = Some msg" by auto
  from multer_scan_message[OF m] m show ?thesis
    by (auto simp: with_upload_def)
qed

text \<open>
  Claim C4. When one of the uploaded files has a name whose extension, in lower case,
  is neither \<open>.ppt\<close> nor \<open>.pptx\<close>, each of \<open>POST /convert\<close>, \<open>POST /preview\<close> and
  \<open>POST /preview-pdf\<close> answers with the error page of the refused upload, status 500,
  and leaves the server as it was: the handler does not run, and the log of started
  tool processes is the same as before.
\<close>

theorem other_extension_is_rejected:
  assumes "f \<in> set files"
      and "toLowerCase (extname (originalname f)) \<noteq> ''.ppt''"
      and "toLowerCase (extname (originalname f)) \<noteq> ''.pptx''"
  shows "(\<exists>msg. post_convert soffice ch files s = (Response 500 (ErrorPage msg), s)) \<and>
         (\<exists>msg. post_preview soffice ch files s = (Response 500 (ErrorPage msg), s)) \<and>
         (\<exists>msg. post_preview_pdf soffice ch files s = (Response 500 (ErrorPage msg), s)) \<and>
         spawned (snd (post_convert soffice ch files s)) = spawned s \<and>
         spawned (snd (post_preview soffice ch files s)) = spawned s \<and>
         spawned (snd (post_preview_pdf soffice ch files s)) = spawned s"
proof -
  from assms(2,3) have ff: "fileFilter (originalname f) = Inl ''Only .ppt and .pptx files allowed''"
    by (simp add: fileFilter_def Let_def)
  have r: "multer_scan n files \<noteq> None" for n
    using multer_scan_refuses[OF assms(1) ff] .
  from with_upload_refused[OF r, of 50 "convert_handler soffice ch" s]
  obtain m1 where a: "post_convert soffice ch files s = (Response 500 (ErrorPage m1), s)"
    by (auto simp: post_convert_def)
  from with_upload_refused[OF r, of 1 "preview_handler soffice ch" s]
  obtain m2 where b: "post_preview soffice ch files s = (Response 500 (ErrorPage m2), s)"
    by (auto simp: post_preview_def)
  from with_upload_refused[OF r, of 1 "preview_pdf_handler soffice ch" s]
  obtain m3 where c: "post_preview_pdf soffice ch files s = (Response 500 (ErrorPage m3), s)"
    by (auto simp: post_preview_pdf_def)
  from a b c show ?thesis by simp
qed

theorem other_extension_is_rejected_witness:
  "toLowerCase (extname (originalname up_txt)) = ''.txt'' \<and>
   post_convert good_tool ch1 [up_a, up_txt] initial_server
     = (Response 500 (ErrorPage ''Only .ppt and .pptx files allowed''), initial_server) \<and>
   post_preview good_tool ch1 [up_txt] initial_server
     = (Response 500 (ErrorPage ''Only .ppt and .pptx files allowed''), initial_server) \<and>
   post_preview_pdf good_tool ch1 [up_txt] initial_server
     = (Response 500 (ErrorPage ''Only .ppt and .pptx files allowed''), initial_server) \<and>
   spawned (snd (post_convert good_tool ch1 [up_a, up_txt] initial_server)) = [] \<and>
   spawned (snd (post_convert good_tool ch1 [up_a] initial_server))
     = [[''--headless'', ''--invisible'', ''--convert-to'', ''pdf'', ''--outdir'',
         ''/tmp/ppt2pdf_w1'', ''/tmp/ppt2pdf_w1/a.pptx'']]"
proof -
  have ext: "toLowerCase (extname (originalname up_txt)) = ''.txt''"
    by (simp add: str_defs example_defs Let_def)
  have m: "multer_scan 50 [up_a, up_txt] = Some ''Only .ppt and .pptx files allowed''"
     "multer_scan 1 [up_txt] = Some ''Only .ppt and .pptx files allowed''"
    by (simp_all add: fileFilter_def str_defs example_defs Let_def)
  have sp0: "spawned initial_server = []" by (simp add: initial_server_def)
  have ne: "toLowerCase (extname (originalname up_txt)) \<noteq> ''.ppt''"
      "toLowerCase (extname (originalname up_txt)) \<noteq> ''.pptx''"
    by (simp_all add: ext)
  have in1: "up_txt \<in> set [up_a, up_txt]" and in2: "up_txt \<in> set [up_txt]" by simp_all
  note th1 = other_extension_is_rejected [OF in1 ne, of good_tool ch1 initial_server]
  note th2 = other_extension_is_rejected [OF in2 ne, of good_tool ch1 initial_server]
  from th1 have s1: "spawned (snd (post_convert good_tool ch1 [up_a, up_txt] initial_server)) = []"
    by (simp add: sp0)
  from th1 m(1) have a: "post_convert good_tool ch1 [up_a, up_txt] initial_server
     = (Response 500 (ErrorPage ''Only .ppt and .pptx files allowed''), initial_server)"
    by (auto simp: post_convert_def with_upload_def)
  from th2 m(2) have b: "post_preview good_tool ch1 [up_txt] initial_server
     = (Response 500 (ErrorPage ''Only .ppt and .pptx files allowed''), initial_server)"
    by (auto simp: post_preview_def with_upload_def)
  from th2 m(2) have c: "post_preview_pdf good_tool ch1 [up_txt] initial_server
     = (Response 500 (ErrorPage ''Only .ppt and .pptx files allowed''), initial_server)"
    by (auto simp: post_preview_pdf_def with_upload_def)
  have run: "spawned (snd (post_convert good_tool ch1 [up_a] initial_server))
     = [[''--headless'', ''--invisible'', ''--convert-to'', ''pdf'', ''--outdir'',
         ''/tmp/ppt2pdf_w1'', ''/tmp/ppt2pdf_w1/a.pptx'']]"
    by (simp add: fs_defs str_defs srv_defs example_defs Let_def cleanup_apply)
  from ext a b c s1 run show ?thesis by simp
qed

section \<open>The artifact of a successful conversion\<close>

lemma distinct_put_entry:
  "distinct (map fst es) \<Longrightarrow> distinct (map fst (put_entry n v es))"
  by (auto simp: put_entry_def distinct_map_filter)

lemma distinct_names_upd:
  "distinct_names fs \<Longrightarrow> distinct (map fst es) \<Longrightarrow> distinct_names (fs(d \<mapsto> es))"
  by (simp add: distinct_names_def)

lemma distinct_names_lookup:
  "distinct_names fs \<Longrightarrow> fs d = Some es \<Longrightarrow> distinct (map fst es)"
  by (simp add: distinct_names_def)

lemma distinct_names_writeFile:
  "distinct_names fs \<Longrightarrow> writeFile p v fs = Inr fs' \<Longrightarrow> distinct_names fs'"
  by (auto simp: writeFile_def split: option.splits
           intro!: distinct_names_upd distinct_put_entry dest: distinct_names_lookup)

lemma distinct_names_unlinkSync:
  "distinct_names fs \<Longrightarrow> unlinkSync p fs = Inr fs' \<Longrightarrow> distinct_names fs'"
  by (auto simp: unlinkSync_def distinct_map_filter split: option.splits if_splits
           intro!: distinct_names_upd dest: distinct_names_lookup)

lemma distinct_names_renameSync:
  "distinct_names fs \<Longrightarrow> renameSync src dst fs = Inr fs' \<Longrightarrow> distinct_names fs'"
  by (auto simp: renameSync_def split: sum.splits option.splits
           dest: distinct_names_unlinkSync distinct_names_writeFile)

lemma distinct_names_mkdirSync:
  "distinct_names fs \<Longrightarrow> distinct_names (mkdirSync d fs)"
  by (auto simp: mkdirSync_def distinct_names_def split: option.splits)

lemma distinct_names_cleanup:
  "distinct_names fs \<Longrightarrow> distinct_names (cleanup d fs)"
  by (auto simp: distinct_names_def cleanup_apply split: if_splits)

lemma distinct_names_store_uploads:
  "distinct_names fs \<Longrightarrow> distinct_names (store_uploads files fs)"
  unfolding store_uploads_def
proof (induction files arbitrary: fs)
  case Nil
  then show ?case by simp
next
  case (Cons f files)
  have "distinct_names (case writeFile (upload_path f) (Bytes (content f)) fs of
                          Inl _ \<Rightarrow> fs | Inr a1 \<Rightarrow> a1)"
    using Cons.prems by (auto split: sum.splits dest: distinct_names_writeFile)
  from Cons.IH[OF this] show ?case by simp
qed

lemma distinct_names_write_outputs:
  "distinct_names fs \<Longrightarrow> distinct_names (write_outputs outdir ws fs)"
  unfolding write_outputs_def
proof (induction ws arbitrary: fs)
  case Nil
  then show ?case by simp
next
  case (Cons w ws)
  have "distinct_names (case writeFile (outdir, fst w) (Bytes (snd w)) fs of
                          Inl _ \<Rightarrow> fs | Inr a1 \<Rightarrow> a1)"
    using Cons.prems by (auto split: sum.splits dest: distinct_names_writeFile)
  from Cons.IH[OF this] show ?case by simp
qed

lemma distinct_names_move_uploads:
  "distinct_names fs \<Longrightarrow> distinct_names (snd (move_uploads workdir files fs))"
proof (induction files arbitrary: fs)
  case Nil
  then show ?case by simp
next
  case (Cons f files)
  then show ?case
    by (cases "renameSync (upload_path f) (workdir, originalname f) fs")
       (auto dest: distinct_names_renameSync)
qed

lemma distinct_names_convertWithSoffice:
  "distinct_names (dirs s) \<Longrightarrow>
     distinct_names (dirs (snd (convertWithSoffice soffice p workdir ms s)))"
  by (auto simp: convertWithSoffice_def Let_def distinct_names_write_outputs split: proc.splits)

lemma distinct_names_convert_each:
  "distinct_names (dirs s) \<Longrightarrow>
     distinct_names (dirs (snd (convert_each soffice workdir files s)))"
proof (induction files arbitrary: s)
  case Nil
  then show ?case by simp
next
  case (Cons f files)
  obtain r s1 where c: "convertWithSoffice soffice (workdir, originalname f) workdir 150000 s = (r, s1)"
    by (cases "convertWithSoffice soffice (workdir, originalname f) workdir 150000 s")
  with distinct_names_convertWithSoffice[OF Cons.prems, of soffice "(workdir, originalname f)" workdir 150000]
  have d: "distinct_names (dirs s1)" by simp
  show ?case
  proof (cases r)
    case (Inl msg)
    with c d show ?thesis by (simp add: distinct_names_cleanup)
  next
    case (Inr code)
    with c Cons.IH[OF d] show ?thesis by simp
  qed
qed

lemma distinct_names_convert_prepare:
  assumes "distinct_names (dirs s)" and "convert_prepare soffice files workdir s = Done (r, s2)"
  shows "distinct_names (dirs s2)"
proof -
  let ?s1 = "s\<lparr>dirs := mkdirSync workdir (dirs s)\<rparr>"
  obtain e d where m: "move_uploads workdir files (dirs ?s1) = (e, d)"
    by (cases "move_uploads workdir files (dirs ?s1)")
  with distinct_names_move_uploads[of "dirs ?s1" workdir files] assms(1)
  have dd: "distinct_names d" by (simp add: distinct_names_mkdirSync)
  from assms(2) m have "convert_each soffice workdir files (?s1\<lparr>dirs := d\<rparr>) = (r, s2)"
    by (cases e) (simp_all add: convert_prepare_def Let_def)
  with distinct_names_convert_each[of "?s1\<lparr>dirs := d\<rparr>" soffice workdir files] dd
  show ?thesis by simp
qed

lemma readFileSync_entry:
  "fs d = Some es \<Longrightarrow> distinct (map fst es) \<Longrightarrow> (n, v) \<in> set es \<Longrightarrow>
     readFileSync (d, n) fs = Inr v"
  by (simp add: readFileSync_def)

lemma zip_entries_all:
  assumes "fs workdir = Some es" and "distinct (map fst es)" and "set ps \<subseteq> set es"
  shows "zip_entries workdir (map fst ps) fs = ps"
  using assms(3)
proof (induction ps)
  case Nil
  then show ?case by (simp add: zip_entries_def)
next
  case (Cons e ps)
  obtain n v where e: "e = (n, v)" by (cases e)
  with Cons.prems have "(n, v) \<in> set es" by simp
  with assms(1,2) have "readFileSync (workdir, n) fs = Inr v"
    by (rule readFileSync_entry)
  with Cons e show ?case
    by (simp add: zip_entries_def)
qed

lemma map_insort_key: "map f (insort_key f x xs) = insort (f x) (map f xs)"
  by (induction xs) simp_all

lemma map_sort_key: "map f (sort_key f xs) = sort (map f xs)"
  by (induction xs) (simp_all add: map_insort_key)

text \<open>The PDF names of a directory listing are the names of its PDF entries, in order of name.\<close>

lemma filter_pdf_names:
  "filter is_pdf_name (sort (map fst es))
     = map fst (sort_key fst (filter (\<lambda>e. is_pdf_name (fst e)) es))"
proof -
  have "map fst (sort_key fst (filter (\<lambda>e. is_pdf_name (fst e)) es))
          = sort (map fst (filter (\<lambda>e. is_pdf_name (fst e)) es))"
    by (rule map_sort_key)
  also have "map fst (filter (\<lambda>e. is_pdf_name (fst e)) es) = filter is_pdf_name (map fst es)"
    by (simp add: filter_map o_def)
  also have "sort (filter is_pdf_name (map fst es)) = filter is_pdf_name (sort (map fst es))"
    by (simp add: filter_sort)
  finally show ?thesis by simp
qed


lemma mkdirSync_existing: "fs d = Some es \<Longrightarrow> mkdirSync d' fs d = Some es"
  by (auto simp: mkdirSync_def split: option.splits)

lemma mkdirSync_made: "\<exists>es. mkdirSync d fs d = Some es"
  by (auto simp: mkdirSync_def split: option.splits)

lemma readFileSync_written:
  assumes "fs (fst p) = Some es" and "fst p \<noteq> workdir"
  shows "readFileSync p (cleanup workdir (fs(fst p \<mapsto> put_entry (snd p) v es))) = Inr v"
  using assms by (simp add: readFileSync_def cleanup_apply map_of_put_entry)

lemma convert_collect_one:
  assumes c: "convert_collect ch workdir s2 = Done (resp, s')"
      and es: "dirs s2 workdir = Some es" and d: "distinct (map fst es)"
      and ne: "workdir \<noteq> filesDir"
      and one: "sort_key fst (filter (\<lambda>e. is_pdf_name (fst e)) es) = [(pdf, v)]"
  shows "resp = Response 200 (JsonConverted (''/download/'' @ uuid2 ch) pdf) \<and>
         generatedFiles s' = (generatedFiles s2)
           (uuid2 ch \<mapsto> \<lparr>path = (filesDir, uuid2 ch @ extname (path_string (workdir, pdf))),
                          downloadName = pdf\<rparr>) \<and>
         readFileSync (filesDir, uuid2 ch @ extname (path_string (workdir, pdf))) (dirs s') = Inr v"
proof -
  let ?fs3 = "mkdirSync filesDir (dirs s2)"
  let ?dest = "(filesDir, uuid2 ch @ extname (path_string (workdir, pdf)))"
  have names: "filter is_pdf_name (sort (map fst es)) = [pdf]"
    by (simp add: filter_pdf_names one)
  have "(pdf, v) \<in> set (sort_key fst (filter (\<lambda>e. is_pdf_name (fst e)) es))"
    by (simp only: one) simp
  then have mem: "(pdf, v) \<in> set es" by simp
  have wd3: "?fs3 workdir = Some es"
    using es by (rule mkdirSync_existing)
  obtain es' where fd3: "?fs3 filesDir = Some es'"
    using mkdirSync_made[of filesDir "dirs s2"] by blast
  have rd: "readFileSync (workdir, pdf) ?fs3 = Inr v"
    using wd3 d mem by (rule readFileSync_entry)
  have cp: "copyFileSync (workdir, pdf) ?dest ?fs3
              = Inr (?fs3(filesDir \<mapsto> put_entry (snd ?dest) v es'))"
    by (simp add: copyFileSync_def rd writeFile_def fd3)
  from c have "resp = Response 200 (JsonConverted (''/download/'' @ uuid2 ch) pdf) \<and>
        s' = (register_generated (uuid2 ch) ?dest pdf
               (s2\<lparr>dirs := ?fs3(filesDir \<mapsto> put_entry (snd ?dest) v es')\<rparr>))
             \<lparr>dirs := cleanup workdir (?fs3(filesDir \<mapsto> put_entry (snd ?dest) v es'))\<rparr>"
    by (simp add: convert_collect_def readdirSync_def es names Let_def cp register_generated_def)
  moreover have "readFileSync ?dest (cleanup workdir (?fs3(fst ?dest \<mapsto> put_entry (snd ?dest) v es'))) = Inr v"
    using fd3 ne by (intro readFileSync_written) simp_all
  ultimately show ?thesis
    by (simp add: register_generated_def)
qed

lemma convert_collect_many:
  assumes c: "convert_collect ch workdir s2 = Done (resp, s')" and ok: "status resp = 200"
      and es: "dirs s2 workdir = Some es" and d: "distinct (map fst es)"
      and ne: "workdir \<noteq> filesDir"
      and many: "1 < length (sort_key fst (filter (\<lambda>e. is_pdf_name (fst e)) es))"
  shows "resp = Response 200 (JsonConverted (''/download/'' @ uuid2 ch) ''converted-pdfs.zip'') \<and>
         generatedFiles s' = (generatedFiles s2)
           (uuid2 ch \<mapsto> \<lparr>path = (filesDir, uuid2 ch @ ''.zip''),
                          downloadName = ''converted-pdfs.zip''\<rparr>) \<and>
         readFileSync (filesDir, uuid2 ch @ ''.zip'') (dirs s')
           = Inr (Zip (sort_key fst (filter (\<lambda>e. is_pdf_name (fst e)) es)))"
proof -
  let ?pdfs = "sort_key fst (filter (\<lambda>e. is_pdf_name (fst e)) es)"
  let ?fs3 = "mkdirSync filesDir (dirs s2)"
  let ?zip = "(filesDir, uuid2 ch @ ''.zip'')"
  from many obtain x y zs where xyz: "?pdfs = x # y # zs"
    by (cases ?pdfs; cases "tl ?pdfs") auto
  have names: "filter is_pdf_name (sort (map fst es)) = fst x # fst y # map fst zs"
    by (simp add: filter_pdf_names xyz)
  have wd3: "?fs3 workdir = Some es"
    using es by (rule mkdirSync_existing)
  obtain es' where fd3: "?fs3 filesDir = Some es'"
    using mkdirSync_made[of filesDir "dirs s2"] by blast
  have "zip_entries workdir (map fst ?pdfs) ?fs3 = ?pdfs"
    using wd3 d by (rule zip_entries_all) simp
  then have ze: "zip_entries workdir (fst x # fst y # map fst zs) ?fs3 = ?pdfs"
    by (simp add: xyz)
  have ws: "write_stream ?zip v ?fs3 = ?fs3(filesDir \<mapsto> put_entry (snd ?zip) v es')" for v
    by (simp add: write_stream_def writeFile_def fd3)
  from c ok have noerr: "archive_error ch = None"
    by (cases "archive_error ch")
       (auto simp: convert_collect_def readdirSync_def es names Let_def)
  from c have "resp = Response 200 (JsonConverted (''/download/'' @ uuid2 ch) ''converted-pdfs.zip'') \<and>
        s' = (register_generated (uuid2 ch) ?zip ''converted-pdfs.zip''
               (s2\<lparr>dirs := ?fs3(filesDir \<mapsto> put_entry (snd ?zip) (Zip ?pdfs) es')\<rparr>))
             \<lparr>dirs := cleanup workdir (?fs3(filesDir \<mapsto> put_entry (snd ?zip) (Zip ?pdfs) es'))\<rparr>"
    by (simp add: convert_collect_def readdirSync_def es names Let_def noerr ze ws
          register_generated_def)
  moreover have "readFileSync ?zip (cleanup workdir (?fs3(fst ?zip \<mapsto> put_entry (snd ?zip) (Zip ?pdfs) es')))
      = Inr (Zip ?pdfs)"
    using fd3 ne by (intro readFileSync_written) simp_all
  ultimately show ?thesis
    by (simp add: register_generated_def)
qed

lemma convert_collect_none:
  assumes c: "convert_collect ch workdir s2 = Done (resp, s')"
      and es: "dirs s2 workdir = Some es"
      and none: "sort_key fst (filter (\<lambda>e. is_pdf_name (fst e)) es) = []"
  shows "resp = Response 500 (JsonError ''Conversion failed: no PDF produced.'')"
proof -
  have "filter is_pdf_name (sort (map fst es)) = []"
    by (simp add: filter_pdf_names none)
  with c show ?thesis
    by (simp add: convert_collect_def readdirSync_def es)
qed


lemma convert_workdir_not_filesDir: "uuid1 ch \<noteq> ''files'' \<Longrightarrow> convert_workdir ch \<noteq> filesDir"
  by (simp add: convert_workdir_def filesDir_def)

text \<open>A successful request has run both parts of the handler to their end.\<close>

lemma post_convert_success:
  assumes "post_convert soffice ch files s = (resp, s')" and "status resp = 200"
  obtains s2 es where "multer_scan 50 files = None"
    and "convert_prepare soffice files (convert_workdir ch)
           (s\<lparr>dirs := store_uploads files (dirs s)\<rparr>) = Done (None, s2)"
    and "dirs s2 (convert_workdir ch) = Some es"
    and "convert_collect ch (convert_workdir ch) s2 = Done (resp, s')"
proof -
  let ?s0 = "s\<lparr>dirs := store_uploads files (dirs s)\<rparr>"
  let ?wd = "convert_workdir ch"
  from assms have m: "multer_scan 50 files = None"
    by (cases "multer_scan 50 files") (auto simp: post_convert_def with_upload_def)
  with assms(1) have h: "convert_handler soffice ch files ?s0 = (resp, s')"
    by (simp add: post_convert_def with_upload_def)
  with assms(2) have ne: "files \<noteq> []"
    by (auto simp: convert_handler_def)
  from h ne assms(2) have t: "convert_try soffice ch files ?wd ?s0 = Done (resp, s')"
    by (cases "convert_try soffice ch files ?wd ?s0") (auto simp: convert_handler_def Let_def)
  then obtain r s2 where p: "convert_prepare soffice files ?wd ?s0 = Done (r, s2)"
    by (cases "convert_prepare soffice files ?wd ?s0") (auto simp: convert_try_def)
  have r: "r = None"
  proof (cases r)
    case None
    then show ?thesis .
  next
    case (Some early)
    with t p have "resp = early" by (simp add: convert_try_def)
    with convert_prepare_early[of soffice files ?wd ?s0 early s2] p Some assms(2)
    show ?thesis by simp
  qed
  with t p have c: "convert_collect ch ?wd s2 = Done (resp, s')"
    by (simp add: convert_try_def)
  then obtain es where "dirs s2 ?wd = Some es"
    by (cases "dirs s2 ?wd") (auto simp: convert_collect_def readdirSync_def)
  with m p r c that show thesis by blast
qed

text \<open>
  Claim C5. Let a request to \<open>POST /convert\<close> succeed, in a file system that lists no
  name twice and with a scratch directory other than the directory of the artifacts.
  Then its scratch directory held at least one PDF when the conversions were over. If
  it held exactly one, the answer names that PDF, the registry has gained one entry,
  under the new id, with the name of the PDF as the download name, and the registered
  file has the bytes of the PDF. If it held more, the answer names
  \<open>converted-pdfs.zip\<close>, the registry has gained one entry, under the new id, and the
  registered file is a zip whose entries are exactly those PDFs, each under its name, in
  the order of the names as the directory listing gives them. In both cases nothing
  else is registered.
\<close>

theorem successful_conversion_registers_one_artifact:
  assumes "post_convert soffice ch files s = (resp, s')" and "status resp = 200"
      and "distinct_names (dirs s)" and "uuid1 ch \<noteq> ''files''"
  shows "produced_pdfs soffice ch files s \<noteq> [] \<and>
         (\<forall>pdf v. produced_pdfs soffice ch files s = [(pdf, v)] \<longrightarrow>
            resp = Response 200 (JsonConverted (''/download/'' @ uuid2 ch) pdf) \<and>
            generatedFiles s' = (generatedFiles s)
              (uuid2 ch \<mapsto>
                 \<lparr>path = (filesDir, uuid2 ch @ extname (path_string (convert_workdir ch, pdf))),
                  downloadName = pdf\<rparr>) \<and>
            readFileSync (filesDir, uuid2 ch @ extname (path_string (convert_workdir ch, pdf)))
              (dirs s') = Inr v) \<and>
         (1 < length (produced_pdfs soffice ch files s) \<longrightarrow>
            resp = Response 200 (JsonConverted (''/download/'' @ uuid2 ch) ''converted-pdfs.zip'') \<and>
            generatedFiles s' = (generatedFiles s)
              (uuid2 ch \<mapsto>
                 \<lparr>path = (filesDir, uuid2 ch @ ''.zip''), downloadName = ''converted-pdfs.zip''\<rparr>) \<and>
            readFileSync (filesDir, uuid2 ch @ ''.zip'') (dirs s')
              = Inr (Zip (produced_pdfs soffice ch files s))) \<and>
         registered ch s s'"
proof -
  let ?s0 = "s\<lparr>dirs := store_uploads files (dirs s)\<rparr>"
  let ?wd = "convert_workdir ch"
  from assms(1,2) obtain s2 es where m: "multer_scan 50 files = None"
    and p: "convert_prepare soffice files ?wd ?s0 = Done (None, s2)"
    and es: "dirs s2 ?wd = Some es"
    and c: "convert_collect ch ?wd s2 = Done (resp, s')"
    by (rule post_convert_success)
  let ?pdfs = "sort_key fst (filter (\<lambda>e. is_pdf_name (fst e)) es)"
  have prod: "produced_pdfs soffice ch files s = ?pdfs"
    by (simp add: produced_pdfs_def m p es)
  have "distinct_names (dirs ?s0)"
    using assms(3) by (simp add: distinct_names_store_uploads)
  from distinct_names_convert_prepare[OF this p] es have d: "distinct (map fst es)"
    by (rule distinct_names_lookup)
  have ne: "?wd \<noteq> filesDir"
    using assms(4) by (rule convert_workdir_not_filesDir)
  from convert_prepare_Done[OF p] have same: "generatedFiles s2 = generatedFiles s"
    by (simp add: registry_unchanged_def)
  have nonempty: "?pdfs \<noteq> []"
  proof
    assume "?pdfs = []"
    from convert_collect_none[OF c es this] assms(2) show False by simp
  qed
  have one: "resp = Response 200 (JsonConverted (''/download/'' @ uuid2 ch) pdf) \<and>
            generatedFiles s' = (generatedFiles s)
              (uuid2 ch \<mapsto> \<lparr>path = (filesDir, uuid2 ch @ extname (path_string (?wd, pdf))),
                             downloadName = pdf\<rparr>) \<and>
            readFileSync (filesDir, uuid2 ch @ extname (path_string (?wd, pdf))) (dirs s') = Inr v"
    if "?pdfs = [(pdf, v)]" for pdf v
    using convert_collect_one[OF c es d ne that] by (simp add: same)
  have many: "resp = Response 200 (JsonConverted (''/download/'' @ uuid2 ch) ''converted-pdfs.zip'') \<and>
            generatedFiles s' = (generatedFiles s)
              (uuid2 ch \<mapsto> \<lparr>path = (filesDir, uuid2 ch @ ''.zip''),
                             downloadName = ''converted-pdfs.zip''\<rparr>) \<and>
            readFileSync (filesDir, uuid2 ch @ ''.zip'') (dirs s') = Inr (Zip ?pdfs)"
    if "1 < length ?pdfs"
    using convert_collect_many[OF c assms(2) es d ne that] by (simp add: same)
  from post_convert_cases[OF assms(1)] assms(2) have reg: "registered ch s s'"
    by auto
  from nonempty one many reg show ?thesis
    unfolding prod by blast
qed


lemma initial_distinct_names: "distinct_names (dirs initial_server)"
  by (simp add: distinct_names_def initial_server_def)

theorem successful_conversion_registers_one_artifact_witness:
  "distinct_names (dirs initial_server) \<and> uuid1 ch1 \<noteq> ''files'' \<and>
   produced_pdfs good_tool ch1 [up_a] initial_server = [(''a.pdf'', Bytes ''PDFA'')] \<and>
   fst (post_convert good_tool ch1 [up_a] initial_server)
     = Response 200 (JsonConverted ''/download/i1'' ''a.pdf'') \<and>
   generatedFiles converted_server ''i1''
     = Some \<lparr>path = (filesDir, ''i1.pdf''), downloadName = ''a.pdf''\<rparr> \<and>
   readFileSync (filesDir, ''i1.pdf'') (dirs converted_server) = Inr (Bytes ''PDFA'') \<and>
   produced_pdfs good_tool ch1 [up_b, up_a] initial_server
     = [(''a.pdf'', Bytes ''PDFA''), (''b.pdf'', Bytes ''PDFB'')] \<and>
   fst (post_convert good_tool ch1 [up_b, up_a] initial_server)
     = Response 200 (JsonConverted ''/download/i1'' ''converted-pdfs.zip'') \<and>
   generatedFiles (snd (post_convert good_tool ch1 [up_b, up_a] initial_server)) ''i1''
     = Some \<lparr>path = (filesDir, ''i1.zip''), downloadName = ''converted-pdfs.zip''\<rparr> \<and>
   readFileSync (filesDir, ''i1.zip'') (dirs (snd (post_convert good_tool ch1 [up_b, up_a] initial_server)))
     = Inr (Zip [(''a.pdf'', Bytes ''PDFA''), (''b.pdf'', Bytes ''PDFB'')])"
proof -
  let ?one = "post_convert good_tool ch1 [up_a] initial_server"
  let ?two = "post_convert good_tool ch1 [up_b, up_a] initial_server"
  have u: "uuid1 ch1 \<noteq> ''files''" by (simp add: ch1_def)
  have id: "uuid2 ch1 = ''i1''" by (simp add: ch1_def)
  have wd: "convert_workdir ch1 = ''/tmp/ppt2pdf_w1''"
    by (simp add: convert_workdir_def tmpdir_def ch1_def)
  have p1: "produced_pdfs good_tool ch1 [up_a] initial_server = [(''a.pdf'', Bytes ''PDFA'')]"
    by (simp add: produced_pdfs_def fs_defs str_defs srv_defs example_defs Let_def cleanup_apply)
  have p2: "produced_pdfs good_tool ch1 [up_b, up_a] initial_server
              = [(''a.pdf'', Bytes ''PDFA''), (''b.pdf'', Bytes ''PDFB'')]"
    by (simp add: produced_pdfs_def fs_defs str_defs srv_defs example_defs Let_def cleanup_apply)
  have r2: "fst ?two = Response 200 (JsonConverted ''/download/i1'' ''converted-pdfs.zip'')"
    by (simp add: fs_defs str_defs srv_defs example_defs Let_def cleanup_apply)
  have pair1: "?one = (fst ?one, converted_server)" by (simp add: converted_server_def)
  have pair2: "?two = (fst ?two, snd ?two)" by simp
  have ok1: "status (fst ?one) = 200" by (simp add: converted_server_response)
  have ok2: "status (fst ?two) = 200" by (simp add: r2)
  have ext: "extname (path_string (''/tmp/ppt2pdf_w1'', ''a.pdf'')) = ''.pdf''"
    by (simp add: str_defs Let_def)
  note th1 = successful_conversion_registers_one_artifact [OF pair1 ok1 initial_distinct_names u]
  note th2 = successful_conversion_registers_one_artifact [OF pair2 ok2 initial_distinct_names u]
  from th1 p1 have
    "generatedFiles converted_server = (generatedFiles initial_server)
        (''i1'' \<mapsto> \<lparr>path = (filesDir, ''i1.pdf''), downloadName = ''a.pdf''\<rparr>) \<and>
     readFileSync (filesDir, ''i1.pdf'') (dirs converted_server) = Inr (Bytes ''PDFA'')"
    by (simp add: id wd ext)
  then have one: "generatedFiles converted_server ''i1''
        = Some \<lparr>path = (filesDir, ''i1.pdf''), downloadName = ''a.pdf''\<rparr>"
      "readFileSync (filesDir, ''i1.pdf'') (dirs converted_server) = Inr (Bytes ''PDFA'')"
    by simp_all
  from th2 p2 have
    "generatedFiles (snd ?two) = (generatedFiles initial_server)
        (''i1'' \<mapsto> \<lparr>path = (filesDir, ''i1.zip''), downloadName = ''converted-pdfs.zip''\<rparr>) \<and>
     readFileSync (filesDir, ''i1.zip'') (dirs (snd ?two))
       = Inr (Zip [(''a.pdf'', Bytes ''PDFA''), (''b.pdf'', Bytes ''PDFB'')])"
    by (simp add: id)
  then have two: "generatedFiles (snd ?two) ''i1''
        = Some \<lparr>path = (filesDir, ''i1.zip''), downloadName = ''converted-pdfs.zip''\<rparr>"
      "readFileSync (filesDir, ''i1.zip'') (dirs (snd ?two))
       = Inr (Zip [(''a.pdf'', Bytes ''PDFA''), (''b.pdf'', Bytes ''PDFB'')])"
    by simp_all
  from initial_distinct_names u p1 converted_server_response one p2 r2 two
  show ?thesis by simp
qed

section \<open>The states the server can reach\<close>

text \<open>
  The two conditions on the state that the theorems above assume hold in every state
  the server reaches from its start, whatever the requests and the tool: no directory
  lists a name twice, and every pending timer is due in the future.
\<close>

lemma distinct_names_try_unlink:
  "distinct_names fs \<Longrightarrow> distinct_names (try_unlink p fs)"
  by (auto simp: try_unlink_def split: sum.splits dest: distinct_names_unlinkSync)

lemma distinct_names_unlink_all:
  "distinct_names fs \<Longrightarrow> distinct_names (foldl (\<lambda>a f. try_unlink (g f) a) fs files)"
  by (induction files arbitrary: fs) (simp_all add: distinct_names_try_unlink)

lemma distinct_names_copyFileSync:
  "distinct_names fs \<Longrightarrow> copyFileSync src dst fs = Inr fs' \<Longrightarrow> distinct_names fs'"
  by (auto simp: copyFileSync_def split: sum.splits dest: distinct_names_writeFile)

lemma distinct_names_write_stream:
  "distinct_names fs \<Longrightarrow> distinct_names (write_stream p v fs)"
  by (auto simp: write_stream_def split: sum.splits dest: distinct_names_writeFile)

lemmas distinct_names_intros =
  distinct_names_try_unlink distinct_names_unlink_all distinct_names_write_stream
  distinct_names_mkdirSync distinct_names_cleanup distinct_names_store_uploads
  distinct_names_write_outputs

lemma distinct_names_convert_collect:
  assumes "distinct_names (dirs s2)"
  shows "case convert_collect ch workdir s2 of
           Threw s3 \<Rightarrow> distinct_names (dirs s3)
         | Done r \<Rightarrow> distinct_names (dirs (snd r))"
  using assms
  by (auto simp: convert_collect_def Let_def register_generated_def
           split: sum.splits list.splits option.splits
           intro!: distinct_names_intros dest!: distinct_names_copyFileSync[rotated])

lemma distinct_names_convert_prepare_Threw:
  assumes "distinct_names (dirs s)" and "convert_prepare soffice files workdir s = Threw s1"
  shows "distinct_names (dirs s1)"
proof -
  let ?s1 = "s\<lparr>dirs := mkdirSync workdir (dirs s)\<rparr>"
  obtain e d where m: "move_uploads workdir files (dirs ?s1) = (e, d)"
    by (cases "move_uploads workdir files (dirs ?s1)")
  with distinct_names_move_uploads[of "dirs ?s1" workdir files] assms(1)
  have "distinct_names d" by (simp add: distinct_names_mkdirSync)
  with assms(2) m show ?thesis
    by (cases e) (auto simp: convert_prepare_def Let_def)
qed

lemma distinct_names_convert_handler:
  assumes "distinct_names (dirs s)"
  shows "distinct_names (dirs (snd (convert_handler soffice ch files s)))"
proof (cases "files = []")
  case True
  with assms show ?thesis by (simp add: convert_handler_def)
next
  case False
  let ?wd = "convert_workdir ch"
  show ?thesis
  proof (cases "convert_prepare soffice files ?wd s")
    case (Threw s1)
    from distinct_names_convert_prepare_Threw[OF assms Threw] False Threw show ?thesis
      by (simp add: convert_handler_def convert_try_def Let_def distinct_names_intros)
  next
    case (Done p)
    obtain r s2 where p: "p = (r, s2)" by (cases p)
    from distinct_names_convert_prepare[OF assms] Done p have d2: "distinct_names (dirs s2)"
      by simp
    show ?thesis
    proof (cases r)
      case (Some early)
      with Done p d2 False show ?thesis
        by (simp add: convert_handler_def convert_try_def Let_def)
    next
      case None
      from distinct_names_convert_collect[OF d2, of ch ?wd] Done p None False show ?thesis
        by (cases "convert_collect ch ?wd s2")
           (simp_all add: convert_handler_def convert_try_def Let_def distinct_names_intros)
    qed
  qed
qed

lemma process_exit_dirs: "dirs (process_exit s) = dirs s"
  by (simp add: process_exit_def)

lemma distinct_names_preview_pdf_close:
  assumes "distinct_names (dirs s)"
  shows "distinct_names (dirs (snd (preview_pdf_close tr workdir s)))"
  using assms
  by (auto simp: preview_pdf_close_def Let_def
           split: list.splits sum.splits
           intro!: distinct_names_intros)

lemma distinct_names_preview_pdf_handler:
  assumes "distinct_names (dirs s)"
  shows "distinct_names (dirs (snd (preview_pdf_handler soffice ch files s)))"
  using assms
  by (auto simp: preview_pdf_handler_def Let_def process_exit_dirs
           split: list.splits sum.splits proc.splits
           intro!: distinct_names_intros distinct_names_preview_pdf_close
           dest!: distinct_names_renameSync[rotated])

lemma distinct_names_preview_close:
  assumes "distinct_names (dirs s)"
  shows "distinct_names (dirs (snd (preview_close tr ch workdir s)))"
  using assms
  by (auto simp: preview_close_def Let_def register_preview_def
           split: list.splits sum.splits
           intro!: distinct_names_intros
           dest!: distinct_names_copyFileSync[rotated])

lemma distinct_names_preview_handler:
  assumes "distinct_names (dirs s)"
  shows "distinct_names (dirs (snd (preview_handler soffice ch files s)))"
  using assms
  by (auto simp: preview_handler_def Let_def process_exit_dirs
           split: list.splits sum.splits proc.splits
           intro!: distinct_names_intros distinct_names_preview_close
           dest!: distinct_names_renameSync[rotated])

lemma distinct_names_with_upload:
  assumes "distinct_names (dirs s)"
      and "\<And>s0. distinct_names (dirs s0) \<Longrightarrow> distinct_names (dirs (snd (handler files s0)))"
  shows "distinct_names (dirs (snd (with_upload n files handler s)))"
  using assms
  by (cases "multer_scan n files") (simp_all add: with_upload_def distinct_names_store_uploads)

lemma distinct_names_route:
  assumes "distinct_names (dirs s)"
  shows "distinct_names (dirs (snd (route soffice r s)))"
proof (cases r)
  case (PostConvert ch files)
  with assms show ?thesis
    by (simp add: post_convert_def distinct_names_with_upload distinct_names_convert_handler)
next
  case (PostPreviewPdf ch files)
  with assms show ?thesis
    by (simp add: post_preview_pdf_def distinct_names_with_upload distinct_names_preview_pdf_handler)
next
  case (PostPreview ch files)
  with assms show ?thesis
    by (simp add: post_preview_def distinct_names_with_upload distinct_names_preview_handler)
next
  case (GetDownload ident)
  with assms show ?thesis
    by (auto simp: get_download_def download_finished_def Let_def distinct_names_try_unlink
             split: option.splits)
next
  case (GetPreview ident)
  with assms show ?thesis
    by (auto simp: get_preview_def split: option.splits)
next
  case GetHealth
  with assms show ?thesis by (simp add: get_health_def)
qed

lemma distinct_names_handle:
  assumes "distinct_names (dirs s)"
  shows "distinct_names (dirs (snd (handle soffice r s)))"
  using assms distinct_names_route[OF assms, of soffice r]
  by (auto simp: handle_def split: prod.splits)

lemma distinct_names_fire_all:
  "distinct_names (dirs s) \<Longrightarrow> distinct_names (dirs (foldl (\<lambda>a tm. fire (snd tm) a) s tms))"
  by (induction tms arbitrary: s) (simp_all add: fire_dirs distinct_names_try_unlink)

lemma distinct_names_step:
  "distinct_names (dirs s) \<Longrightarrow> distinct_names (dirs (step soffice s ev))"
proof (cases ev)
  case (Request r)
  assume "distinct_names (dirs s)"
  with Request show ?thesis by (simp add: distinct_names_handle)
next
  case (Tick t)
  assume "distinct_names (dirs s)"
  with Tick show ?thesis
    by (simp add: advance_def Let_def distinct_names_fire_all)
qed

lemma distinct_names_run:
  "distinct_names (dirs s) \<Longrightarrow> distinct_names (dirs (run soffice s evs))"
  unfolding run_def
  by (induction evs arbitrary: s) (simp_all add: distinct_names_step)

lemma reachable_well_formed:
  "distinct_names (dirs (run soffice initial_server evs)) \<and>
   timers_pending (run soffice initial_server evs)"
  by (simp add: distinct_names_run initial_distinct_names run_timers_pending
        initial_timers_pending)


end
